theory Spec2Isabelle
  imports Complex_Main "HOL-Library.Multiset"
begin

section \<open>Cell values, errors and data frames\<close>

text \<open>
  The ETL code works on pandas data frames. A cell is a dynamically typed value; \<open>Null\<close>
  stands for NaN, None and NaT alike. \<open>TsV ns\<close> is a pandas Timestamp (nanoseconds since
  1970-01-01), \<open>DateV d\<close> a Python \<open>datetime.date\<close> (days since 1970-01-01). Numbers are
  integers: floating point cells are outside the model, and so are column dtypes (a pandas
  merge of an integer key column with a string key column raises; here key cells are
  compared by value).
\<close>

datatype val = Null | IntV int | StrV string | BoolV bool | TsV int | DateV int

datatype error =
    KeyError string
  | ValueError
  | MergeError
  | AttributeError
  | FileNotFoundError
  | ReadError

text \<open>A frame is its list of column names and its rows in order, one cell per column.\<close>

datatype df = DF (cols: "string list") (rows: "val list list")

definition wf_df :: "df \<Rightarrow> bool" where
  "wf_df d = (\<forall>r \<in> set (rows d). length r = length (cols d))"

definition ebind :: "error + 'a \<Rightarrow> ('a \<Rightarrow> error + 'b) \<Rightarrow> error + 'b" where
  "ebind m f = (case m of Inl e \<Rightarrow> Inl e | Inr x \<Rightarrow> f x)"

fun idx :: "'a \<Rightarrow> 'a list \<Rightarrow> nat" where
  "idx c [] = 0"
| "idx c (x # xs) = (if x = c then 0 else Suc (idx c xs))"

definition cell :: "string list \<Rightarrow> val list \<Rightarrow> string \<Rightarrow> val" where
  "cell cs r c = r ! idx c cs"

definition column :: "df \<Rightarrow> string \<Rightarrow> val list" where
  "column d c = map (\<lambda>r. cell (cols d) r c) (rows d)"

text \<open>\<open>df[c]\<close>: KeyError when the column is missing.\<close>

definition getcol :: "df \<Rightarrow> string \<Rightarrow> error + val list" where
  "getcol d c = (if c \<in> set (cols d) then Inr (column d c) else Inl (KeyError c))"

text \<open>\<open>df[[c1, ..., cn]]\<close>.\<close>

definition select :: "df \<Rightarrow> string list \<Rightarrow> error + df" where
  "select d cs =
     (case filter (\<lambda>c. c \<notin> set (cols d)) cs of
        [] \<Rightarrow> Inr (DF cs (map (\<lambda>r. map (cell (cols d) r) cs) (rows d)))
      | c # _ \<Rightarrow> Inl (KeyError c))"

text \<open>
  \<open>drop_duplicates\<close> keeps the first row of every key, in source order; pandas counts two
  missing values as equal there, as HOL equality on \<open>Null\<close> does.
\<close>

fun keep_first :: "('a \<Rightarrow> 'b) \<Rightarrow> 'b list \<Rightarrow> 'a list \<Rightarrow> 'a list" where
  "keep_first f seen [] = []"
| "keep_first f seen (x # xs) =
     (if f x \<in> set seen then keep_first f seen xs
      else x # keep_first f (f x # seen) xs)"

definition drop_duplicates :: "df \<Rightarrow> string list \<Rightarrow> error + df" where
  "drop_duplicates d keys =
     (case filter (\<lambda>c. c \<notin> set (cols d)) keys of
        [] \<Rightarrow> Inr (DF (cols d) (keep_first (\<lambda>r. map (cell (cols d) r) keys) [] (rows d)))
      | c # _ \<Rightarrow> Inl (KeyError c))"

definition drop_duplicates_all :: "df \<Rightarrow> df" where
  "drop_duplicates_all d = DF (cols d) (keep_first (\<lambda>r. r) [] (rows d))"

definition dropna :: "df \<Rightarrow> df" where
  "dropna d = DF (cols d) (filter (\<lambda>r. Null \<notin> set r) (rows d))"

definition dropna_subset :: "df \<Rightarrow> string list \<Rightarrow> error + df" where
  "dropna_subset d keys =
     (case filter (\<lambda>c. c \<notin> set (cols d)) keys of
        [] \<Rightarrow> Inr (DF (cols d)
                (filter (\<lambda>r. \<forall>c \<in> set keys. cell (cols d) r c \<noteq> Null) (rows d)))
      | c # _ \<Rightarrow> Inl (KeyError c))"

text \<open>\<open>df.insert(0, name, values)\<close>: ValueError when the column already exists.\<close>

definition insert_col0 :: "df \<Rightarrow> string \<Rightarrow> val list \<Rightarrow> error + df" where
  "insert_col0 d name vs =
     (if name \<in> set (cols d) \<or> length vs \<noteq> length (rows d) then Inl ValueError
      else Inr (DF (name # cols d) (map2 (#) vs (rows d))))"

definition range1 :: "nat \<Rightarrow> val list" where
  "range1 n = map (\<lambda>i. IntV (int i)) [1..<Suc n]"

text \<open>\<open>df.rename(columns=m)\<close> and \<open>df.columns = names\<close>.\<close>

definition rename_col :: "(string \<times> string) list \<Rightarrow> string \<Rightarrow> string" where
  "rename_col m c = (case map_of m c of Some c' \<Rightarrow> c' | None \<Rightarrow> c)"

definition rename :: "df \<Rightarrow> (string \<times> string) list \<Rightarrow> df" where
  "rename d m = DF (map (rename_col m) (cols d)) (rows d)"

definition set_columns :: "df \<Rightarrow> string list \<Rightarrow> error + df" where
  "set_columns d names =
     (if length names = length (cols d) then Inr (DF names (rows d)) else Inl ValueError)"

text \<open>Apply a function to the cells of one column (\<open>map\<close>, \<open>fillna\<close>, \<open>astype\<close>).\<close>

definition map_col :: "df \<Rightarrow> string \<Rightarrow> (val \<Rightarrow> val) \<Rightarrow> df" where
  "map_col d c f = DF (cols d) (map (\<lambda>r. r[idx c (cols d) := f (cell (cols d) r c)]) (rows d))"

definition fillna_val :: "val \<Rightarrow> val \<Rightarrow> val" where
  "fillna_val v x = (if x = Null then v else x)"

definition fillna :: "df \<Rightarrow> string \<Rightarrow> val \<Rightarrow> error + df" where
  "fillna d c v = (if c \<in> set (cols d) then Inr (map_col d c (fillna_val v)) else Inl (KeyError c))"

text \<open>\<open>df[c] = values\<close>: replaces the column when it exists, appends it otherwise.\<close>

definition set_col :: "df \<Rightarrow> string \<Rightarrow> val list \<Rightarrow> df" where
  "set_col d c vs =
     (if c \<in> set (cols d)
      then DF (cols d) (map2 (\<lambda>v r. r[idx c (cols d) := v]) vs (rows d))
      else DF (cols d @ [c]) (map2 (\<lambda>v r. r @ [v]) vs (rows d)))"

definition set_const :: "df \<Rightarrow> string \<Rightarrow> val \<Rightarrow> df" where
  "set_const d c v = set_col d c (replicate (length (rows d)) v)"

definition drop_col :: "df \<Rightarrow> string \<Rightarrow> error + df" where
  "drop_col d c =
     (if c \<in> set (cols d)
      then Inr (DF (filter (\<lambda>x. x \<noteq> c) (cols d))
                (map (\<lambda>r. map (cell (cols d) r) (filter (\<lambda>x. x \<noteq> c) (cols d))) (rows d)))
      else Inl (KeyError c))"

text \<open>
  \<open>pd.concat(frames, ignore_index=True)\<close>: the columns are the union of the frames' columns
  in order of appearance, a cell of a column a frame lacks is missing; an empty list of
  frames raises ValueError.
\<close>

definition all_cols :: "df list \<Rightarrow> string list" where
  "all_cols ds = keep_first (\<lambda>c. c) [] (concat (map cols ds))"

definition reindex_row :: "string list \<Rightarrow> string list \<Rightarrow> val list \<Rightarrow> val list" where
  "reindex_row cs new r = map (\<lambda>c. if c \<in> set cs then cell cs r c else Null) new"

definition concat_df :: "df list \<Rightarrow> error + df" where
  "concat_df ds =
     (if ds = [] then Inl ValueError
      else Inr (DF (all_cols ds)
                 (concat (map (\<lambda>d. map (reindex_row (cols d) (all_cols ds)) (rows d)) ds))))"

text \<open>
  \<open>left.merge(right, left_on=l, right_on=r, how=...)\<close>. The rows follow the order of the left
  frame, each left row paired with its matching right rows in their order; missing keys match
  each other. A column name both frames have gets the suffixes \<open>_x\<close> and \<open>_y\<close>, and pandas
  refuses a result with duplicate column names.
\<close>

datatype how = Inner | LeftJoin

definition merge_rows :: "how \<Rightarrow> nat \<Rightarrow> (val list \<Rightarrow> val) \<Rightarrow> (val list \<Rightarrow> val) \<Rightarrow>
    val list list \<Rightarrow> val list \<Rightarrow> val list list" where
  "merge_rows h n lk rk rrows l =
     (case filter (\<lambda>r. rk r = lk l) rrows of
        [] \<Rightarrow> (case h of Inner \<Rightarrow> [] | LeftJoin \<Rightarrow> [l @ replicate n Null])
      | m # ms \<Rightarrow> map (\<lambda>r. l @ r) (m # ms))"

definition merge :: "df \<Rightarrow> df \<Rightarrow> string \<Rightarrow> string \<Rightarrow> how \<Rightarrow> error + df" where
  "merge left right left_on right_on h =
     (if left_on \<notin> set (cols left) then Inl (KeyError left_on)
      else if right_on \<notin> set (cols right) then Inl (KeyError right_on)
      else
        let lc = map (\<lambda>c. if c \<in> set (cols right) then c @ ''_x'' else c) (cols left);
            rc = map (\<lambda>c. if c \<in> set (cols left) then c @ ''_y'' else c) (cols right)
        in if \<not> distinct (lc @ rc) then Inl MergeError
           else Inr (DF (lc @ rc)
                  (concat (map (merge_rows h (length (cols right))
                                  (\<lambda>l. cell (cols left) l left_on)
                                  (\<lambda>r. cell (cols right) r right_on)
                                  (rows right))
                               (rows left)))))"

text \<open>\<open>Series.min()\<close> skips missing values; on no value at all it is missing itself.\<close>

definition col_min :: "val list \<Rightarrow> val" where
  "col_min vs =
     (case List.map_filter (\<lambda>v. case v of IntV n \<Rightarrow> Some n | _ \<Rightarrow> None) vs of
        [] \<Rightarrow> Null
      | n # ns \<Rightarrow> IntV (fold min ns n))"

text \<open>
  \<open>df.groupby(k)[v].first().reset_index()\<close>: one row per non-missing key, carrying the first
  non-missing value of the group (missing when there is none). pandas sorts the groups by
  key; the model lists them in order of first occurrence, which the left merge that consumes
  this frame cannot observe.
\<close>

definition groupby_first :: "df \<Rightarrow> string \<Rightarrow> string \<Rightarrow> df" where
  "groupby_first d k v =
     DF [k, v]
        (map (\<lambda>key.
                [key,
                 (case filter (\<lambda>x. x \<noteq> Null)
                         (map (\<lambda>r. cell (cols d) r v)
                              (filter (\<lambda>r. cell (cols d) r k = key) (rows d))) of
                    [] \<Rightarrow> Null
                  | x # _ \<Rightarrow> x)])
             (keep_first (\<lambda>x. x) [] (filter (\<lambda>x. x \<noteq> Null) (column d k))))"

section \<open>Calendar fields of a timestamp\<close>

text \<open>
  pandas stores a Timestamp as nanoseconds since 1970-01-01 and derives the calendar fields
  from the day number in the proleptic Gregorian calendar. 1970-01-01 was a Thursday;
  \<open>dayofweek\<close> counts Monday as 0.
\<close>

definition ns_per_day :: int where
  "ns_per_day = 86400000000000"

definition days_of :: "int \<Rightarrow> int" where
  "days_of ns = ns div ns_per_day"

text \<open>\<open>pd.Timestamp(f.date())\<close> and \<open>dt.normalize()\<close>: midnight of the same day.\<close>

definition normalize :: "int \<Rightarrow> int" where
  "normalize ns = days_of ns * ns_per_day"

definition doe_of :: "int \<Rightarrow> int" where
  "doe_of days = (days + 719468) mod 146097"

definition yoe_of :: "int \<Rightarrow> int" where
  "yoe_of days =
     (let doe = doe_of days
      in (doe - doe div 1460 + doe div 36524 - doe div 146096) div 365)"

definition doy_of :: "int \<Rightarrow> int" where
  "doy_of days =
     (let doe = doe_of days; yoe = yoe_of days
      in doe - (365 * yoe + yoe div 4 - yoe div 100))"

definition mp_of :: "int \<Rightarrow> int" where
  "mp_of days = (5 * doy_of days + 2) div 153"

definition month_of :: "int \<Rightarrow> int" where
  "month_of days = (let mp = mp_of days in if mp < 10 then mp + 3 else mp - 9)"

definition day_of :: "int \<Rightarrow> int" where
  "day_of days = doy_of days - (153 * mp_of days + 2) div 5 + 1"

definition year_of :: "int \<Rightarrow> int" where
  "year_of days =
     yoe_of days + ((days + 719468) div 146097) * 400 + (if month_of days \<le> 2 then 1 else 0)"

definition quarter_of :: "int \<Rightarrow> int" where
  "quarter_of days = (month_of days - 1) div 3 + 1"

definition dayofweek :: "int \<Rightarrow> int" where
  "dayofweek days = (days + 3) mod 7"

section \<open>The transformer and its environment\<close>

text \<open>
  What the transform takes from outside the repository is a parameter of the model:
  \<open>pd.to_datetime(..., errors='coerce')\<close> and \<open>pd.to_numeric(..., errors='coerce')\<close> on a cell
  (\<open>None\<close> is the coerced missing value), \<open>astype('int64')\<close> on a cell that is neither an
  integer nor missing (\<open>None\<close> is the raised error), the order in which Python iterates over
  the set of orphan ids, today's date, and floating point: \<open>float_pct e h n\<close> is the double
  that Python computes for \<open>h / n * 100\<close> with \<open>n > 0\<close>, as the rational number it is.
\<close>

record env =
  to_datetime :: "val \<Rightarrow> int option"
  to_numeric :: "val \<Rightarrow> int option"
  cast_int64 :: "val \<Rightarrow> int option"
  set_iter :: "val list \<Rightarrow> val list"
  today :: int
  float_pct :: "nat \<Rightarrow> nat \<Rightarrow> rat"

definition env_ok :: "env \<Rightarrow> bool" where
  "env_ok e = (\<forall>xs. distinct xs \<longrightarrow> mset (set_iter e xs) = mset xs)"

datatype warning =
    DatasetNoDisponible string
  | ColumnaNoEncontrada string
  | DatasetsInsuficientes
  | HuerfanosDetectados nat

record orphan_stats_rec =
  competencias_huerfanos :: nat
  competencias_total :: nat
  competencias_pct :: rat

record transformer =
  datasets :: "string \<rightharpoonup> df"
  dimensions :: "string \<rightharpoonup> df"
  facts :: "string \<rightharpoonup> df"
  orphan_stats :: "orphan_stats_rec option"
  warnings :: "warning list"

text \<open>\<open>DataTransformer.__init__\<close>\<close>

definition init_transformer :: "(string \<rightharpoonup> df) \<Rightarrow> transformer" where
  "init_transformer ds =
     \<lparr>datasets = ds, dimensions = Map.empty, facts = Map.empty,
      orphan_stats = None, warnings = []\<rparr>"

definition warn :: "transformer \<Rightarrow> warning \<Rightarrow> transformer" where
  "warn t w = t\<lparr>warnings := warnings t @ [w]\<rparr>"

definition put_dim :: "transformer \<Rightarrow> string \<Rightarrow> df \<Rightarrow> transformer" where
  "put_dim t name d = t\<lparr>dimensions := (dimensions t)(name \<mapsto> d)\<rparr>"

definition put_fact :: "transformer \<Rightarrow> string \<Rightarrow> df \<Rightarrow> transformer" where
  "put_fact t name d = t\<lparr>facts := (facts t)(name \<mapsto> d)\<rparr>"

text \<open>\<open>self.dimensions[name]\<close>: KeyError when the dimension was not built.\<close>

definition get_dim :: "transformer \<Rightarrow> string \<Rightarrow> error + df" where
  "get_dim t name = (case dimensions t name of Some d \<Rightarrow> Inr d | None \<Rightarrow> Inl (KeyError name))"

text \<open>
  \<open>series.astype('int64')\<close>: an integer cell stays, a missing cell raises, any other cell is
  the environment's business.
\<close>

definition to_int64 :: "env \<Rightarrow> val \<Rightarrow> int option" where
  "to_int64 e v = (case v of IntV n \<Rightarrow> Some n | Null \<Rightarrow> None | _ \<Rightarrow> cast_int64 e v)"

definition astype_int64 :: "env \<Rightarrow> val list \<Rightarrow> error + val list" where
  "astype_int64 e vs =
     (if \<exists>v \<in> set vs. to_int64 e v = None then Inl ValueError
      else Inr (map (\<lambda>v. case to_int64 e v of Some n \<Rightarrow> IntV n | None \<Rightarrow> Null) vs))"

text \<open>\<open>df[c] = df[c].astype('int64')\<close>\<close>

definition astype_col :: "env \<Rightarrow> df \<Rightarrow> string \<Rightarrow> error + df" where
  "astype_col e d c =
     ebind (getcol d c) (\<lambda>vs.
     ebind (astype_int64 e vs) (\<lambda>vs'.
     Inr (set_col d c vs')))"

section \<open>Orphan reconciliation\<close>

text \<open>\<open>set(series.dropna().unique())\<close>, as the list of its members.\<close>

definition unique_nonnull :: "val list \<Rightarrow> val list" where
  "unique_nonnull vs = keep_first (\<lambda>v. v) [] (filter (\<lambda>v. v \<noteq> Null) vs)"

definition placeholder_cols :: "string list" where
  "placeholder_cols =
     [''AVISOID'', ''NOMBREAVISO'', ''VACANTES'', ''SECTOR'', ''UBIGEO'', ''SINEXPERIENCIA'',
      ''TIEMPOEXPERIENCIA'', ''IDEMPRESA'', ''DEPARTAMENTO'', ''PROVINCIA'', ''DISTRITO'',
      ''FECHAINICIO'', ''FECHAFIN'', ''FECHACREACION'', ''ACTIVO'']"

definition placeholder_row :: "int \<Rightarrow> val \<Rightarrow> val list" where
  "placeholder_row fecha_placeholder aviso =
     [aviso, StrV ''REGISTRO_HUERFANO_PRESERVADO'', IntV 0, StrV ''SIN_CLASIFICAR'',
      StrV ''000000'', StrV ''NO'', IntV 0, IntV 0, StrV ''SIN_ESPECIFICAR'',
      StrV ''SIN_ESPECIFICAR'', StrV ''SIN_ESPECIFICAR'', DateV fecha_placeholder,
      DateV fecha_placeholder, DateV fecha_placeholder, BoolV False]"

definition vacante_placeholder :: "int \<Rightarrow> val list \<Rightarrow> df" where
  "vacante_placeholder fecha_placeholder huerfanos =
     DF placeholder_cols (map (placeholder_row fecha_placeholder) huerfanos)"

text \<open>\<open>avisos_comp - avisos_vac\<close>\<close>

definition huerfanos_of :: "val list \<Rightarrow> val list \<Rightarrow> val list" where
  "huerfanos_of avisos_comp avisos_vac = filter (\<lambda>a. a \<notin> set avisos_vac) avisos_comp"

definition reconcile_orphans :: "env \<Rightarrow> transformer \<Rightarrow> error + transformer" where
  "reconcile_orphans e t =
     (case datasets t ''competencias'' of
        None \<Rightarrow> Inr (warn t DatasetsInsuficientes)
      | Some df_comp \<Rightarrow>
     (case datasets t ''vacantes'' of
        None \<Rightarrow> Inr (warn t DatasetsInsuficientes)
      | Some df_vac \<Rightarrow>
          ebind (getcol df_comp ''AVISOID'') (\<lambda>comp_ids.
          ebind (getcol df_vac ''AVISOID'') (\<lambda>vac_ids.
            let avisos_comp = unique_nonnull comp_ids;
                avisos_vac = unique_nonnull vac_ids;
                huerfanos = huerfanos_of avisos_comp avisos_vac;
                huerfanos_count = length huerfanos;
                total_comp = length avisos_comp;
                pct_huerfanos =
                  (if total_comp > 0
                   then float_pct e huerfanos_count total_comp else 0);
                stats = \<lparr>competencias_huerfanos = huerfanos_count,
                         competencias_total = total_comp,
                         competencias_pct = pct_huerfanos\<rparr>
            in if huerfanos_count > 0
               then ebind (concat_df [df_vac,
                             vacante_placeholder (today e) (set_iter e huerfanos)])
                      (\<lambda>vac'. Inr ((warn t (HuerfanosDetectados huerfanos_count))
                                 \<lparr>datasets := (datasets t)(''vacantes'' \<mapsto> vac'),
                                  orphan_stats := Some stats\<rparr>))
               else Inr (t\<lparr>orphan_stats := Some stats\<rparr>)))))"

section \<open>Dimension builders\<close>

definition meses_es :: "(int \<times> string) list" where
  "meses_es =
     [(1, ''Enero''), (2, ''Febrero''), (3, ''Marzo''), (4, ''Abril''), (5, ''Mayo''),
      (6, ''Junio''), (7, ''Julio''), (8, ''Agosto''), (9, ''Septiembre''),
      (10, ''Octubre''), (11, ''Noviembre''), (12, ''Diciembre'')]"

text \<open>The accented letters of the day names are their UTF-8 bytes.\<close>

definition dias_es :: "(int \<times> string) list" where
  "dias_es =
     [(1, ''Lunes''), (2, ''Martes''), (3, ''Mi'' @ [CHR 0xC3, CHR 0xA9] @ ''rcoles''),
      (4, ''Jueves''), (5, ''Viernes''), (6, ''S'' @ [CHR 0xC3, CHR 0xA1] @ ''bado''),
      (7, ''Domingo'')]"

definition map_dict :: "(int \<times> string) list \<Rightarrow> int \<Rightarrow> val" where
  "map_dict m k = (case map_of m k of Some s \<Rightarrow> StrV s | None \<Rightarrow> Null)"

definition tiempo_cols :: "string list" where
  "tiempo_cols =
     [''fecha_sk'', ''fecha'', ''anio'', ''mes'', ''dia'', ''trimestre'', ''semestre'',
      ''dia_semana'', ''nombre_mes'', ''nombre_dia'', ''es_fin_semana'']"

definition tiempo_row :: "val \<Rightarrow> int \<Rightarrow> val list" where
  "tiempo_row sk fecha =
     (let d = days_of fecha;
          trimestre = quarter_of d;
          dia_semana = dayofweek d + 1
      in [sk, TsV fecha, IntV (year_of d), IntV (month_of d), IntV (day_of d),
          IntV trimestre, IntV (if trimestre \<le> 2 then 1 else 2), IntV dia_semana,
          map_dict meses_es (month_of d), map_dict dias_es dia_semana,
          BoolV (dia_semana \<in> {6, 7})])"

text \<open>The parseable dates of the named columns a frame has, column after column.\<close>

definition fechas_de :: "env \<Rightarrow> df \<Rightarrow> string list \<Rightarrow> int list" where
  "fechas_de e d cs =
     concat (map (\<lambda>c. if c \<in> set (cols d)
                       then List.map_filter (to_datetime e) (column d c) else []) cs)"

definition fechas_unicas_of :: "env \<Rightarrow> transformer \<Rightarrow> int list" where
  "fechas_unicas_of e t =
     (let fechas =
            (case datasets t ''vacantes'' of
               Some df_vac \<Rightarrow>
                 fechas_de e df_vac [''FECHAINICIO'', ''FECHAFIN'', ''FECHACREACION'']
             | None \<Rightarrow> []) @
            (case datasets t ''educacion'' of
               Some df_edu \<Rightarrow> fechas_de e df_edu [''FECHAINICIO'', ''FECHAFIN'']
             | None \<Rightarrow> []);
          fechas_normalizadas = map normalize fechas
      in sort (remdups fechas_normalizadas))"

text \<open>
  On no date at all the frame's \<open>fecha\<close> column is an empty column of dtype object, and its
  \<open>.dt\<close> accessor raises AttributeError.
\<close>

definition build_dim_tiempo :: "env \<Rightarrow> transformer \<Rightarrow> error + transformer" where
  "build_dim_tiempo e t =
     (let fechas_unicas = fechas_unicas_of e t
      in if fechas_unicas = [] then Inl AttributeError
         else Inr (put_dim t ''dim_tiempo''
                (DF tiempo_cols
                    (map2 tiempo_row (range1 (length fechas_unicas)) fechas_unicas))))"

definition ubic_cols :: "string list" where
  "ubic_cols = [''DEPARTAMENTO'', ''PROVINCIA'', ''DISTRITO'', ''UBIGEO'']"

definition ubicaciones_de :: "transformer \<Rightarrow> string \<Rightarrow> string \<Rightarrow> error + df list" where
  "ubicaciones_de t name fuente =
     (case datasets t name of
        None \<Rightarrow> Inr []
      | Some d \<Rightarrow>
          if \<forall>c \<in> set ubic_cols. c \<in> set (cols d)
          then ebind (select d ubic_cols) (\<lambda>ub. Inr [set_const ub ''fuente'' (StrV fuente)])
          else Inr [])"

definition build_dim_ubicacion :: "transformer \<Rightarrow> error + transformer" where
  "build_dim_ubicacion t =
     ebind (ubicaciones_de t ''postulante'' ''postulante'') (\<lambda>u1.
     ebind (ubicaciones_de t ''vacantes'' ''vacante'') (\<lambda>u2.
     ebind (concat_df (u1 @ u2)) (\<lambda>d0.
     ebind (drop_duplicates d0 [''UBIGEO'']) (\<lambda>d1.
     ebind (fillna d1 ''DISTRITO'' (StrV ''SIN_ESPECIFICAR'')) (\<lambda>d2.
     ebind (fillna d2 ''DEPARTAMENTO'' (StrV ''SIN_ESPECIFICAR'')) (\<lambda>d3.
     ebind (fillna d3 ''PROVINCIA'' (StrV ''SIN_ESPECIFICAR'')) (\<lambda>d4.
     ebind (insert_col0 d4 ''ubicacion_sk'' (range1 (length (rows d4)))) (\<lambda>d5.
     ebind (set_columns d5 [''ubicacion_sk'', ''departamento'', ''provincia'', ''distrito'',
                            ''ubigeo'', ''fuente'']) (\<lambda>d6.
     Inr (put_dim t ''dim_ubicacion'' d6))))))))))"

definition postulante_renames :: "(string \<times> string) list" where
  "postulante_renames =
     [(''ID_POSTULANTE'', ''id_postulante_original''), (''EDAD'', ''edad''),
      (''SEXO'', ''sexo''), (''UBIGEO'', ''ubigeo''), (''ESTADO_CONADIS'', ''estado_conadis'')]"

definition build_dim_postulante :: "transformer \<Rightarrow> error + transformer" where
  "build_dim_postulante t =
     (case datasets t ''postulante'' of
        None \<Rightarrow> Inr (warn t (DatasetNoDisponible ''postulante''))
      | Some df_post \<Rightarrow>
          let cols_needed = [''ID_POSTULANTE'', ''EDAD'', ''SEXO'', ''UBIGEO'', ''ESTADO_CONADIS''];
              cols_available = filter (\<lambda>c. c \<in> set (cols df_post)) cols_needed
          in ebind (select df_post cols_available) (\<lambda>d0.
             ebind (drop_duplicates d0 [''ID_POSTULANTE'']) (\<lambda>d1.
             ebind (insert_col0 d1 ''postulante_sk'' (range1 (length (rows d1)))) (\<lambda>d2.
             Inr (put_dim t ''dim_postulante''
                    (rename d2 postulante_renames))))))"

definition build_dim_empresa :: "transformer \<Rightarrow> error + transformer" where
  "build_dim_empresa t =
     (case datasets t ''vacantes'' of
        None \<Rightarrow> Inr (warn t (DatasetNoDisponible ''vacantes''))
      | Some d \<Rightarrow>
          if ''IDEMPRESA'' \<notin> set (cols d) then Inr (warn t (ColumnaNoEncontrada ''IDEMPRESA''))
          else ebind (select d [''IDEMPRESA'']) (\<lambda>d0.
               ebind (insert_col0 (drop_duplicates_all d0) ''empresa_sk''
                        (range1 (length (rows (drop_duplicates_all d0))))) (\<lambda>d1.
               Inr (put_dim t ''dim_empresa''
                      (rename d1 [(''IDEMPRESA'', ''id_empresa_original'')])))))"

text \<open>
  The \<open>SINEXPERIENCIA\<close> dictionary; \<open>True\<close> and \<open>False\<close> hash and compare as 1 and 0, so a
  boolean cell is found under those keys.
\<close>

definition map_sinexperiencia :: "val \<Rightarrow> val" where
  "map_sinexperiencia v =
     (case v of
        StrV s \<Rightarrow> (if s \<in> {''SI'', ''S'', ''1''} then BoolV True
                    else if s \<in> {''NO'', ''N'', ''0''} then BoolV False else Null)
      | IntV n \<Rightarrow> (if n = 1 then BoolV True else if n = 0 then BoolV False else Null)
      | BoolV b \<Rightarrow> BoolV b
      | _ \<Rightarrow> Null)"

definition build_dim_vacante :: "env \<Rightarrow> transformer \<Rightarrow> error + transformer" where
  "build_dim_vacante e t =
     (case datasets t ''vacantes'' of
        None \<Rightarrow> Inr (warn t (DatasetNoDisponible ''vacantes''))
      | Some df_vac \<Rightarrow>
          ebind (select df_vac [''AVISOID'']) (\<lambda>d0.
          ebind (set_columns (drop_duplicates_all d0) [''id_vacante_original'']) (\<lambda>d1.
          ebind (insert_col0 d1 ''vacante_sk'' (range1 (length (rows d1)))) (\<lambda>d2.
          ebind (merge d2 df_vac ''id_vacante_original'' ''AVISOID'' LeftJoin) (\<lambda>d3.
            let optional_cols = [''NOMBREAVISO'', ''VACANTES'', ''SECTOR'', ''UBIGEO'',
                                 ''SINEXPERIENCIA'', ''TIEMPOEXPERIENCIA''];
                cols_to_keep = [''vacante_sk'', ''id_vacante_original''] @
                               filter (\<lambda>c. c \<in> set (cols d3)) optional_cols
            in ebind (select d3 cols_to_keep) (\<lambda>d4.
               let d5 = (if ''TIEMPOEXPERIENCIA'' \<in> set (cols d4)
                         then map_col d4 ''TIEMPOEXPERIENCIA''
                                (\<lambda>v. fillna_val (IntV 0)
                                       (case to_numeric e v of Some n \<Rightarrow> IntV n | None \<Rightarrow> Null))
                         else d4);
                   d6 = (if ''SINEXPERIENCIA'' \<in> set (cols d5)
                         then map_col d5 ''SINEXPERIENCIA''
                                (\<lambda>v. fillna_val (BoolV False) (map_sinexperiencia v))
                         else d5)
               in Inr (put_dim t ''dim_vacante''
                        (rename d6 [(''NOMBREAVISO'', ''nombre_aviso''),
                                    (''VACANTES'', ''num_vacantes''), (''SECTOR'', ''sector''),
                                    (''UBIGEO'', ''ubigeo''),
                                    (''SINEXPERIENCIA'', ''sin_experiencia''),
                                    (''TIEMPOEXPERIENCIA'', ''tiempo_experiencia'')]))))))))"

definition build_dim_competencia :: "transformer \<Rightarrow> error + transformer" where
  "build_dim_competencia t =
     (case datasets t ''competencias'' of
        None \<Rightarrow> Inr (warn t (DatasetNoDisponible ''competencias''))
      | Some d \<Rightarrow>
          if ''NOMBRECOMPETENCIA'' \<notin> set (cols d)
          then Inr (warn t (ColumnaNoEncontrada ''NOMBRECOMPETENCIA''))
          else ebind (select d [''NOMBRECOMPETENCIA'']) (\<lambda>d0.
               ebind (insert_col0 (drop_duplicates_all d0) ''competencia_sk''
                        (range1 (length (rows (drop_duplicates_all d0))))) (\<lambda>d1.
               Inr (put_dim t ''dim_competencia''
                      (rename d1 [(''NOMBRECOMPETENCIA'', ''nombre_competencia'')])))))"

definition build_dim_carrera :: "transformer \<Rightarrow> error + transformer" where
  "build_dim_carrera t =
     (case datasets t ''educacion'' of
        None \<Rightarrow> Inr (warn t (DatasetNoDisponible ''educacion''))
      | Some d \<Rightarrow>
          if ''CARRERA'' \<notin> set (cols d) then Inr (warn t (ColumnaNoEncontrada ''CARRERA''))
          else ebind (select d [''CARRERA'']) (\<lambda>d0.
               let d1 = dropna (drop_duplicates_all d0)
               in ebind (insert_col0 d1 ''carrera_sk'' (range1 (length (rows d1)))) (\<lambda>d2.
                  let d3 = rename d2 [(''CARRERA'', ''nombre_carrera'')]
                  in if ''GRADO'' \<in> set (cols d)
                     then ebind (merge d3 (groupby_first d ''CARRERA'' ''GRADO'')
                                   ''nombre_carrera'' ''CARRERA'' LeftJoin) (\<lambda>d4.
                          ebind (drop_col d4 ''CARRERA'') (\<lambda>d5.
                          Inr (put_dim t ''dim_carrera'' d5)))
                     else Inr (put_dim t ''dim_carrera'' d3))))"

definition build_dim_institucion :: "transformer \<Rightarrow> error + transformer" where
  "build_dim_institucion t =
     (case datasets t ''educacion'' of
        None \<Rightarrow> Inr (warn t (DatasetNoDisponible ''educacion''))
      | Some d \<Rightarrow>
          if ''INSTITUCION'' \<notin> set (cols d)
          then Inr (warn t (ColumnaNoEncontrada ''INSTITUCION''))
          else ebind (select d [''INSTITUCION'']) (\<lambda>d0.
               let d1 = dropna (drop_duplicates_all d0)
               in ebind (insert_col0 d1 ''institucion_sk'' (range1 (length (rows d1)))) (\<lambda>d2.
                  Inr (put_dim t ''dim_institucion''
                         (rename d2 [(''INSTITUCION'', ''nombre_institucion'')])))))"

definition build_all_dimensions :: "env \<Rightarrow> transformer \<Rightarrow> error + transformer" where
  "build_all_dimensions e t =
     ebind (build_dim_tiempo e t) (\<lambda>t1.
     ebind (build_dim_ubicacion t1) (\<lambda>t2.
     ebind (build_dim_postulante t2) (\<lambda>t3.
     ebind (build_dim_empresa t3) (\<lambda>t4.
     ebind (build_dim_vacante e t4) (\<lambda>t5.
     ebind (build_dim_competencia t5) (\<lambda>t6.
     ebind (build_dim_carrera t6) (\<lambda>t7.
     build_dim_institucion t7)))))))"

section \<open>Fact builders\<close>

text \<open>
  The optional left join of the facts with the key columns of a dimension, which the fact
  builders repeat: \<open>if 'dim_x' in self.dimensions and 'COL' in hechos.columns:
  hechos = hechos.merge(dim[[sk, key]], left_on='COL', right_on=key, how='left')\<close>.
\<close>

definition join_dim ::
    "transformer \<Rightarrow> df \<Rightarrow> string \<Rightarrow> string \<Rightarrow> string \<Rightarrow> string \<Rightarrow> error + df" where
  "join_dim t hechos dim_name left_on sk right_on =
     (case dimensions t dim_name of
        None \<Rightarrow> Inr hechos
      | Some d \<Rightarrow>
          if left_on \<in> set (cols hechos)
          then ebind (select d [sk, right_on]) (\<lambda>dk.
               merge hechos dk left_on right_on LeftJoin)
          else Inr hechos)"

text \<open>\<open>hechos[[col for col in cols_final if col in hechos.columns]]\<close>\<close>

definition select_present :: "df \<Rightarrow> string list \<Rightarrow> error + df" where
  "select_present d cs = select d (filter (\<lambda>c. c \<in> set (cols d)) cs)"

definition build_hechos_postulante :: "transformer \<Rightarrow> error + transformer" where
  "build_hechos_postulante t =
     (case datasets t ''postulante'' of
        None \<Rightarrow> Inr (warn t (DatasetNoDisponible ''postulante''))
      | Some df_post \<Rightarrow>
          ebind (get_dim t ''dim_postulante'') (\<lambda>dim_post.
          ebind (select dim_post [''postulante_sk'', ''id_postulante_original'']) (\<lambda>dp.
          ebind (merge df_post dp ''ID_POSTULANTE'' ''id_postulante_original'' LeftJoin) (\<lambda>h1.
          ebind (join_dim t h1 ''dim_ubicacion'' ''UBIGEO'' ''ubicacion_sk'' ''ubigeo'') (\<lambda>h2.
            let cols_final = [''postulante_sk''] @
                             (if ''ubicacion_sk'' \<in> set (cols h2) then [''ubicacion_sk''] else [])
            in ebind (case dimensions t ''dim_tiempo'' of
                        None \<Rightarrow> Inr (h2, cols_final)
                      | Some dim_tiempo \<Rightarrow>
                          ebind (getcol dim_tiempo ''fecha_sk'') (\<lambda>sks.
                          Inr (set_const h2 ''fecha_registro_sk'' (col_min sks),
                               cols_final @ [''fecha_registro_sk''])))
                 (\<lambda>(h3, cols_final).
               ebind (select_present h3 cols_final) (\<lambda>h4.
               Inr (put_fact t ''hechos_postulante'' (drop_duplicates_all h4)))))))))"

definition build_hechos_formacion :: "transformer \<Rightarrow> error + transformer" where
  "build_hechos_formacion t =
     (case datasets t ''educacion'' of
        None \<Rightarrow> Inr (warn t (DatasetNoDisponible ''educacion''))
      | Some df_edu \<Rightarrow>
          ebind (get_dim t ''dim_postulante'') (\<lambda>dim_post.
          ebind (select dim_post [''postulante_sk'', ''id_postulante_original'']) (\<lambda>dp.
          ebind (merge df_edu dp ''ID_POSTULANTE'' ''id_postulante_original'' Inner) (\<lambda>h1.
          ebind (join_dim t h1 ''dim_carrera'' ''CARRERA'' ''carrera_sk'' ''nombre_carrera'')
            (\<lambda>h2.
          ebind (join_dim t h2 ''dim_institucion'' ''INSTITUCION'' ''institucion_sk''
                   ''nombre_institucion'') (\<lambda>h3.
            let cols_final = [''postulante_sk''] @
                  (if ''carrera_sk'' \<in> set (cols h3) then [''carrera_sk''] else []) @
                  (if ''institucion_sk'' \<in> set (cols h3) then [''institucion_sk''] else [])
            in ebind (select_present h3 cols_final) (\<lambda>h4.
               Inr (put_fact t ''hechos_formacion'' (drop_duplicates_all h4)))))))))"

definition build_hechos_experiencia :: "env \<Rightarrow> transformer \<Rightarrow> error + transformer" where
  "build_hechos_experiencia e t =
     (case datasets t ''experiencias'' of
        None \<Rightarrow> Inr (warn t (DatasetNoDisponible ''experiencias''))
      | Some df_exp \<Rightarrow>
          ebind (get_dim t ''dim_postulante'') (\<lambda>dim_post.
          ebind (select dim_post [''postulante_sk'', ''id_postulante_original'']) (\<lambda>dp.
          ebind (merge df_exp dp ''ID_POSTULANTE'' ''id_postulante_original'' Inner) (\<lambda>h1.
          ebind (select h1 [''postulante_sk'']) (\<lambda>h2.
          ebind (dropna_subset (drop_duplicates_all h2) [''postulante_sk'']) (\<lambda>h3.
          ebind (astype_col e h3 ''postulante_sk'') (\<lambda>h4.
          Inr (put_fact t ''hechos_experiencia'' h4))))))))"

definition astype_if_present :: "env \<Rightarrow> df \<Rightarrow> string \<Rightarrow> error + df" where
  "astype_if_present e d c = (if c \<in> set (cols d) then astype_col e d c else Inr d)"

definition ts_cell :: "env \<Rightarrow> val \<Rightarrow> val" where
  "ts_cell e v = (case to_datetime e v of Some ns \<Rightarrow> TsV ns | None \<Rightarrow> Null)"

definition normalize_cell :: "val \<Rightarrow> val" where
  "normalize_cell v = (case v of TsV ns \<Rightarrow> TsV (normalize ns) | _ \<Rightarrow> Null)"

text \<open>The left join of the posting facts with the time dimension on the creation day.\<close>

definition join_tiempo :: "env \<Rightarrow> transformer \<Rightarrow> df \<Rightarrow> string list \<Rightarrow>
    error + (df \<times> string list)" where
  "join_tiempo e t hechos cols_final =
     (case dimensions t ''dim_tiempo'' of
        None \<Rightarrow> Inr (hechos, cols_final)
      | Some dim_tiempo \<Rightarrow>
          if ''FECHACREACION'' \<in> set (cols hechos)
          then
            let h1 = map_col hechos ''FECHACREACION'' (ts_cell e);
                h2 = set_col h1 ''fecha_normalizada''
                       (map normalize_cell (column h1 ''FECHACREACION''))
            in ebind (select dim_tiempo [''fecha_sk'', ''fecha'']) (\<lambda>dt.
               ebind (merge h2 dt ''fecha_normalizada'' ''fecha'' LeftJoin) (\<lambda>h3.
               ebind (getcol dim_tiempo ''fecha_sk'') (\<lambda>sks.
               ebind (getcol h3 ''fecha_sk'') (\<lambda>fs.
               ebind (astype_int64 e (map (fillna_val (col_min sks)) fs)) (\<lambda>pub.
               Inr (set_col h3 ''fecha_publicacion_sk'' pub,
                    cols_final @ [''fecha_publicacion_sk'']))))))
          else Inr (hechos, cols_final))"

text \<open>
  The end of the posting facts: the active flag, the final columns, duplicates and rows with
  a missing value dropped, the keys cast to integers.
\<close>

definition finish_hechos_vacante ::
    "env \<Rightarrow> transformer \<Rightarrow> df \<Rightarrow> string list \<Rightarrow> error + transformer" where
  "finish_hechos_vacante e t h4 cols_final =
     (let (h5, cols_final) =
            (if ''ACTIVO'' \<in> set (cols h4)
             then (rename h4 [(''ACTIVO'', ''activo'')], cols_final @ [''ACTIVO''])
             else (set_const h4 ''activo'' (BoolV True), cols_final @ [''activo'']))
      in ebind (select_present h5 cols_final) (\<lambda>h6.
         ebind (astype_if_present e (dropna (drop_duplicates_all h6)) ''vacante_sk'') (\<lambda>h7.
         ebind (astype_if_present e h7 ''ubicacion_sk'') (\<lambda>h8.
         ebind (astype_if_present e h8 ''empresa_sk'') (\<lambda>h9.
         Inr (put_fact t ''hechos_vacante'' h9))))))"

definition build_hechos_vacante :: "env \<Rightarrow> transformer \<Rightarrow> error + transformer" where
  "build_hechos_vacante e t =
     (case datasets t ''vacantes'' of
        None \<Rightarrow> Inr (warn t (DatasetNoDisponible ''vacantes''))
      | Some df_vac \<Rightarrow>
          ebind (get_dim t ''dim_vacante'') (\<lambda>dim_vac.
          ebind (select dim_vac [''vacante_sk'', ''id_vacante_original'']) (\<lambda>dv.
          ebind (merge df_vac dv ''AVISOID'' ''id_vacante_original'' Inner) (\<lambda>h1.
          ebind (join_dim t h1 ''dim_ubicacion'' ''UBIGEO'' ''ubicacion_sk'' ''ubigeo'') (\<lambda>h2.
          ebind (join_dim t h2 ''dim_empresa'' ''IDEMPRESA'' ''empresa_sk''
                   ''id_empresa_original'') (\<lambda>h3.
            let cols_final = [''vacante_sk''] @
                  (if ''ubicacion_sk'' \<in> set (cols h3) then [''ubicacion_sk''] else []) @
                  (if ''empresa_sk'' \<in> set (cols h3) then [''empresa_sk''] else [])
            in ebind (join_tiempo e t h3 cols_final) (\<lambda>(h4, cols_final).
               finish_hechos_vacante e t h4 cols_final)))))))"

text \<open>The inner join of the competency facts with the whole competency dimension.\<close>

definition join_competencia :: "transformer \<Rightarrow> df \<Rightarrow> error + df" where
  "join_competencia t hechos =
     (case dimensions t ''dim_competencia'' of
        None \<Rightarrow> Inr hechos
      | Some dim_comp \<Rightarrow>
          if ''NOMBRECOMPETENCIA'' \<in> set (cols hechos)
          then merge hechos dim_comp ''NOMBRECOMPETENCIA'' ''nombre_competencia'' Inner
          else Inr hechos)"

definition build_hechos_competencia_requerida ::
    "env \<Rightarrow> transformer \<Rightarrow> error + transformer" where
  "build_hechos_competencia_requerida e t =
     (case datasets t ''competencias'' of
        None \<Rightarrow> Inr (warn t (DatasetNoDisponible ''competencias''))
      | Some df_comp \<Rightarrow>
          ebind (get_dim t ''dim_vacante'') (\<lambda>dim_vac.
          ebind (select dim_vac [''vacante_sk'', ''id_vacante_original'']) (\<lambda>dv.
          ebind (merge df_comp dv ''AVISOID'' ''id_vacante_original'' Inner) (\<lambda>h1.
          ebind (join_competencia t h1) (\<lambda>h2.
          ebind (select h2 [''vacante_sk'', ''competencia_sk'']) (\<lambda>h3.
          ebind (astype_col e (dropna h3) ''vacante_sk'') (\<lambda>h4.
          ebind (astype_col e h4 ''competencia_sk'') (\<lambda>h5.
          Inr (put_fact t ''hechos_competencia_requerida'' h5)))))))))"

definition build_all_facts :: "env \<Rightarrow> transformer \<Rightarrow> error + transformer" where
  "build_all_facts e t =
     ebind (build_hechos_postulante t) (\<lambda>t1.
     ebind (build_hechos_formacion t1) (\<lambda>t2.
     ebind (build_hechos_experiencia e t2) (\<lambda>t3.
     ebind (build_hechos_vacante e t3) (\<lambda>t4.
     build_hechos_competencia_requerida e t4))))"

section \<open>The transform\<close>

text \<open>
  The body of the \<open>try\<close> in \<open>transform_all\<close>: dimensions first, then orphan reconciliation,
  then facts. Every builder either raises before it touches the transformer or runs to its
  end, so an error carries no state.
\<close>

definition transform_run :: "env \<Rightarrow> transformer \<Rightarrow> error + transformer" where
  "transform_run e t =
     ebind (build_all_dimensions e t) (\<lambda>t1.
     ebind (reconcile_orphans e t1) (\<lambda>t2.
     build_all_facts e t2))"

text \<open>What \<open>transform_all\<close> returns: \<open>(None, None)\<close> on any exception.\<close>

definition transform_all ::
    "env \<Rightarrow> transformer \<Rightarrow> ((string \<rightharpoonup> df) \<times> (string \<rightharpoonup> df)) option" where
  "transform_all e t =
     (case transform_run e t of
        Inl err \<Rightarrow> None
      | Inr t' \<Rightarrow> Some (dimensions t', facts t'))"

section \<open>Extraction\<close>

text \<open>
  The file system as the extractor sees it: whether the directory of cleaned data exists,
  and for each file name what \<open>pd.read_csv\<close> does with it (\<open>None\<close>: no such file).
\<close>

record filesystem =
  cleaned_path_exists :: bool
  read_csv :: "string \<rightharpoonup> error + df"

definition EXPECTED_FILES :: "(string \<times> string) list" where
  "EXPECTED_FILES =
     [(''postulante'', ''postulante_clean.csv''),
      (''discapacidad'', ''discapacidad_clean.csv''),
      (''educacion'', ''educacion_clean.csv''),
      (''experiencias'', ''experiencias_clean.csv''),
      (''vacantes'', ''vacantes_clean.csv''),
      (''competencias'', ''competencias_clean.csv'')]"

text \<open>\<open>df.empty\<close>: some axis has length 0.\<close>

definition df_empty :: "df \<Rightarrow> bool" where
  "df_empty d = (rows d = [] \<or> cols d = [])"

text \<open>\<open>DataExtractor.__init__\<close> with \<open>_validate_paths\<close>: the extractor's empty mapping.\<close>

definition DataExtractor :: "filesystem \<Rightarrow> error + (string \<rightharpoonup> df)" where
  "DataExtractor fs = (if cleaned_path_exists fs then Inr Map.empty else Inl FileNotFoundError)"

definition load_csv :: "filesystem \<Rightarrow> string \<Rightarrow> error + df" where
  "load_csv fs filename =
     (case read_csv fs filename of
        None \<Rightarrow> Inl FileNotFoundError
      | Some res \<Rightarrow>
          ebind res (\<lambda>d. if df_empty d then Inl ValueError else Inr d))"

fun load_files :: "filesystem \<Rightarrow> (string \<times> string) list \<Rightarrow> (string \<rightharpoonup> df) \<Rightarrow>
    error + (string \<rightharpoonup> df)" where
  "load_files fs [] ds = Inr ds"
| "load_files fs ((name, filename) # rest) ds =
     ebind (load_csv fs filename) (\<lambda>d. load_files fs rest (ds(name \<mapsto> d)))"

fun validate_extraction :: "string list \<Rightarrow> (string \<rightharpoonup> df) \<Rightarrow> error + unit" where
  "validate_extraction [] ds = Inr ()"
| "validate_extraction (name # names) ds =
     (case ds name of
        None \<Rightarrow> Inl ValueError
      | Some d \<Rightarrow> if df_empty d then Inl ValueError else validate_extraction names ds)"

definition extract_all :: "filesystem \<Rightarrow> (string \<rightharpoonup> df) \<Rightarrow> (string \<rightharpoonup> df) option" where
  "extract_all fs ds0 =
     (case ebind (load_files fs EXPECTED_FILES ds0) (\<lambda>ds.
           ebind (validate_extraction (map fst EXPECTED_FILES) ds) (\<lambda>_. Inr ds)) of
        Inl err \<Rightarrow> None
      | Inr ds \<Rightarrow> Some ds)"

text \<open>Constructing the extractor and extracting, as \<open>main\<close> does.\<close>

definition run_extraction :: "filesystem \<Rightarrow> error + (string \<rightharpoonup> df) option" where
  "run_extraction fs = ebind (DataExtractor fs) (\<lambda>ds0. Inr (extract_all fs ds0))"

section \<open>Sample inputs\<close>

text \<open>
  An environment whose date parser accepts timestamps and dates, whose number parser accepts
  integers, which iterates over a set in the order given, and whose percentages are the
  doubles of the two quotients with orphans that the samples reach, \<open>1 / 3 * 100\<close> and
  \<open>2 / 3 * 100\<close> (33.33333333333333 and 66.66666666666666); and a small dataset mapping:
  one applicant, two postings (ids 1 and 2) and three required competencies, the third of
  which refers to posting 3.
\<close>

definition sample_env :: env where
  "sample_env =
     \<lparr>to_datetime = (\<lambda>v. case v of TsV ns \<Rightarrow> Some ns
                              | DateV d \<Rightarrow> Some (d * ns_per_day) | _ \<Rightarrow> None),
      to_numeric = (\<lambda>v. case v of IntV n \<Rightarrow> Some n | _ \<Rightarrow> None),
      cast_int64 = (\<lambda>v. None),
      set_iter = (\<lambda>xs. xs),
      today = 20000,
      float_pct = (\<lambda>h n. if h = 1 \<and> n = 3 then 2345624805922133 / 70368744177664
                          else if h = 2 \<and> n = 3 then 2345624805922133 / 35184372088832
                          else 0)\<rparr>"

definition sample_vacantes :: df where
  "sample_vacantes =
     DF [''AVISOID'', ''VACANTES'', ''UBIGEO'', ''DEPARTAMENTO'', ''PROVINCIA'', ''DISTRITO'',
         ''IDEMPRESA'', ''FECHACREACION'']
        [[IntV 1, IntV 5, StrV ''150101'', StrV ''LIMA'', StrV ''LIMA'', StrV ''LIMA'',
          IntV 7, TsV 0],
         [IntV 2, IntV 4, StrV ''150101'', StrV ''LIMA'', StrV ''LIMA'', StrV ''LIMA'',
          IntV 7, TsV 0]]"

definition sample_competencias :: df where
  "sample_competencias =
     DF [''AVISOID'', ''NOMBRECOMPETENCIA'']
        [[IntV 1, StrV ''A''], [IntV 2, StrV ''B''], [IntV 3, StrV ''C'']]"

definition sample_datasets :: "string \<rightharpoonup> df" where
  "sample_datasets =
     [''postulante'' \<mapsto>
        DF [''ID_POSTULANTE'', ''EDAD'', ''SEXO'', ''UBIGEO'', ''ESTADO_CONADIS'',
            ''DEPARTAMENTO'', ''PROVINCIA'', ''DISTRITO'']
           [[IntV 10, IntV 30, StrV ''M'', StrV ''150101'', StrV ''NO'', StrV ''LIMA'',
             StrV ''LIMA'', StrV ''LIMA'']],
      ''discapacidad'' \<mapsto> DF [''ID_POSTULANTE''] [[IntV 10]],
      ''educacion'' \<mapsto>
        DF [''ID_POSTULANTE'', ''CARRERA'', ''INSTITUCION'']
           [[IntV 10, StrV ''DERECHO'', StrV ''UNMSM'']],
      ''experiencias'' \<mapsto> DF [''ID_POSTULANTE''] [[IntV 10]],
      ''vacantes'' \<mapsto> sample_vacantes,
      ''competencias'' \<mapsto> sample_competencias]"

text \<open>The same mapping with two posting rows that share the id 1.\<close>

definition sample_datasets_dup :: "string \<rightharpoonup> df" where
  "sample_datasets_dup =
     sample_datasets(''vacantes'' \<mapsto>
       DF (cols sample_vacantes)
          [[IntV 1, IntV 5, StrV ''150101'', StrV ''LIMA'', StrV ''LIMA'', StrV ''LIMA'',
            IntV 7, TsV 0],
           [IntV 1, IntV 9, StrV ''150101'', StrV ''LIMA'', StrV ''LIMA'', StrV ''LIMA'',
            IntV 7, TsV 0]])"

text \<open>The same mapping without the applicant dataset, and without any source of locations.\<close>

definition sample_datasets_sin_postulante :: "string \<rightharpoonup> df" where
  "sample_datasets_sin_postulante = sample_datasets(''postulante'' := None)"

definition sample_datasets_sin_ubicacion :: "string \<rightharpoonup> df" where
  "sample_datasets_sin_ubicacion =
     sample_datasets(''postulante'' := None, ''vacantes'' := None)"

text \<open>A directory with the six files, one row each; and the same without the posting file.\<close>

definition sample_fs :: filesystem where
  "sample_fs =
     \<lparr>cleaned_path_exists = True,
      read_csv = map_of (map (\<lambda>p. (snd p, Inr (DF [''ID_POSTULANTE''] [[IntV 10]])))
                          EXPECTED_FILES)\<rparr>"

definition sample_fs_sin_vacantes :: filesystem where
  "sample_fs_sin_vacantes =
     sample_fs\<lparr>read_csv := (read_csv sample_fs)(''vacantes_clean.csv'' := None)\<rparr>"

text \<open>The sample mapping without the competency of posting 3: no orphan.\<close>

definition sample_datasets_sin_huerfanos :: "string \<rightharpoonup> df" where
  "sample_datasets_sin_huerfanos =
     sample_datasets(''competencias'' \<mapsto>
       DF [''AVISOID'', ''NOMBRECOMPETENCIA''] [[IntV 1, StrV ''A''], [IntV 2, StrV ''B'']])"

text \<open>The applicant columns the dimension takes, and applicants with a repeated id.\<close>

definition postulante_cols_available :: "df \<Rightarrow> string list" where
  "postulante_cols_available df_post =
     filter (\<lambda>c. c \<in> set (cols df_post))
       [''ID_POSTULANTE'', ''EDAD'', ''SEXO'', ''UBIGEO'', ''ESTADO_CONADIS'']"

definition sample_postulante_dup :: df where
  "sample_postulante_dup =
     DF [''ID_POSTULANTE'', ''EDAD''] [[IntV 10, IntV 30], [IntV 11, IntV 40], [IntV 10, IntV 99]]"

text \<open>
  The dates the time dimension is about, in the words of the specification: the timestamps
  that parse, of the date columns the builder reads in the job-posting and education datasets.
\<close>

definition parsed_dates :: "env \<Rightarrow> df \<Rightarrow> string list \<Rightarrow> int set" where
  "parsed_dates e d cs =
     {ns. \<exists>c \<in> set cs. c \<in> set (cols d) \<and> (\<exists>v \<in> set (column d c). to_datetime e v = Some ns)}"

definition fechas_fuente :: "env \<Rightarrow> transformer \<Rightarrow> int set" where
  "fechas_fuente e t =
     (case datasets t ''vacantes'' of
        Some d \<Rightarrow> parsed_dates e d [''FECHAINICIO'', ''FECHAFIN'', ''FECHACREACION'']
      | None \<Rightarrow> {}) \<union>
     (case datasets t ''educacion'' of
        Some d \<Rightarrow> parsed_dates e d [''FECHAINICIO'', ''FECHAFIN'']
      | None \<Rightarrow> {})"

section \<open>Notions for the referential integrity of the facts\<close>

text \<open>
  A frame is well formed with a column, when it has it, inside a set of values; a column
  name is plain when no merge suffix ends it; the key columns that the fact builders resolve
  by an inner join, with the dimension and the surrogate key each refers to.
\<close>

definition col_in :: "string \<Rightarrow> val set \<Rightarrow> df \<Rightarrow> bool" where
  "col_in c S d = (wf_df d \<and> (c \<in> set (cols d) \<longrightarrow> set (column d c) \<subseteq> S))"

definition plain :: "string \<Rightarrow> bool" where
  "plain c = (\<forall>d. c \<noteq> d @ ''_x'' \<and> c \<noteq> d @ ''_y'')"

definition suffix_x :: "df \<Rightarrow> string \<Rightarrow> string" where
  "suffix_x right c = (if c \<in> set (cols right) then c @ ''_x'' else c)"

definition suffix_y :: "df \<Rightarrow> string \<Rightarrow> string" where
  "suffix_y left c = (if c \<in> set (cols left) then c @ ''_y'' else c)"

definition ints :: "val set" where
  "ints = range IntV"

definition data_ok :: "transformer \<Rightarrow> bool" where
  "data_ok t = (\<forall>k d. datasets t k = Some d \<longrightarrow> wf_df d)"

definition dim_ints :: "transformer \<Rightarrow> string \<Rightarrow> string \<Rightarrow> bool" where
  "dim_ints t name sk = (\<forall>d. dimensions t name = Some d \<longrightarrow> col_in sk ints d)"

text \<open>
  The competency dimension exists only with its two columns and with the competency names in
  the source.
\<close>

definition comp_link :: "transformer \<Rightarrow> bool" where
  "comp_link t =
     (\<forall>d. dimensions t ''dim_competencia'' = Some d \<longrightarrow>
        cols d = [''competencia_sk'', ''nombre_competencia'']
        \<and> (\<exists>dc. datasets t ''competencias'' = Some dc \<and> ''NOMBRECOMPETENCIA'' \<in> set (cols dc)))"

definition dims_ok :: "transformer \<Rightarrow> bool" where
  "dims_ok t =
     (dim_ints t ''dim_postulante'' ''postulante_sk''
      \<and> dim_ints t ''dim_vacante'' ''vacante_sk''
      \<and> dim_ints t ''dim_competencia'' ''competencia_sk''
      \<and> comp_link t)"

text \<open>What a builder leaves alone: everything but one dimension, or but one fact table.\<close>

definition only_dim :: "string \<Rightarrow> transformer \<Rightarrow> transformer \<Rightarrow> bool" where
  "only_dim name t t' =
     (datasets t' = datasets t \<and> facts t' = facts t
      \<and> (\<forall>n. n \<noteq> name \<longrightarrow> dimensions t' n = dimensions t n))"

definition only_fact :: "string \<Rightarrow> transformer \<Rightarrow> transformer \<Rightarrow> bool" where
  "only_fact name t t' =
     (datasets t' = datasets t \<and> dimensions t' = dimensions t
      \<and> (\<forall>n. n \<noteq> name \<longrightarrow> facts t' n = facts t n))"

definition fk_built ::
    "transformer \<Rightarrow> transformer \<Rightarrow> string \<Rightarrow> string \<Rightarrow> string \<Rightarrow> string \<Rightarrow> bool" where
  "fk_built t t' fname fk dm sk =
     (facts t' fname = facts t fname
      \<or> (\<exists>f. facts t' fname = Some f
              \<and> (\<forall>d. dimensions t dm = Some d \<longrightarrow> col_in fk (set (column d sk)) f)))"

text \<open>What holds between the phases of the transform.\<close>

definition phase_ok :: "transformer \<Rightarrow> bool" where
  "phase_ok t = (data_ok t \<and> dims_ok t \<and> facts t = Map.empty)"

definition fk_holds :: "(string \<rightharpoonup> df) \<Rightarrow> (string \<rightharpoonup> df) \<Rightarrow> string \<Rightarrow> string \<Rightarrow> string \<Rightarrow> string \<Rightarrow> bool" where
  "fk_holds dims fs fname fk dm sk =
     (\<forall>f d. fs fname = Some f \<longrightarrow> dims dm = Some d \<longrightarrow> fk \<in> set (cols f) \<longrightarrow>
        (\<forall>v \<in> set (column f fk). v \<noteq> Null \<longrightarrow> v \<in> set (column d sk)))"

definition fk_dependencies :: "(string \<times> string \<times> string \<times> string) list" where
  "fk_dependencies =
     [(''hechos_formacion'', ''postulante_sk'', ''dim_postulante'', ''postulante_sk''),
      (''hechos_experiencia'', ''postulante_sk'', ''dim_postulante'', ''postulante_sk''),
      (''hechos_vacante'', ''vacante_sk'', ''dim_vacante'', ''vacante_sk''),
      (''hechos_competencia_requerida'', ''vacante_sk'', ''dim_vacante'', ''vacante_sk''),
      (''hechos_competencia_requerida'', ''competencia_sk'', ''dim_competencia'',
       ''competencia_sk'')]"

section \<open>The orphan competencies are lost: dimensions are built before reconciliation\<close>

text \<open>
  Claim C1. Every competency row with a posting id and a competency name should yield a row
  of \<open>hechos_competencia_requerida\<close>, the orphans through their placeholder postings. The
  code builds \<open>dim_vacante\<close> before it reconciles the orphans, so the placeholder of posting
  3 never reaches the dimension and the inner join drops the competency \<open>C\<close> (key 3 of
  \<open>dim_competencia\<close>): on the sample the fact table holds two of the three rows.
\<close>

theorem C1_orphan_competency_dropped:
  "(case transform_all sample_env (init_transformer sample_datasets) of
      None \<Rightarrow> None
    | Some (dims, fs) \<Rightarrow>
        Some (dims ''dim_competencia'', fs ''hechos_competencia_requerida''))
   = Some (Some (DF [''competencia_sk'', ''nombre_competencia'']
                    [[IntV 1, StrV ''A''], [IntV 2, StrV ''B''], [IntV 3, StrV ''C'']]),
           Some (DF [''vacante_sk'', ''competencia_sk'']
                    [[IntV 1, IntV 1], [IntV 2, IntV 2]]))"
  by code_simp

text \<open>
  Claim C2. With competencies for the postings 1, 2, 3 and postings 1, 2 only, the
  job-posting dataset holds the three ids after the run, the placeholder 3 with zero
  vacancies; but \<open>dim_vacante\<close>, built before, has two rows and not three.
\<close>

theorem C2_dim_vacante_without_placeholder:
  "(case transform_run sample_env (init_transformer sample_datasets) of
      Inl err \<Rightarrow> None
    | Inr t \<Rightarrow>
        Some (map_option (\<lambda>d. (column d ''AVISOID'', column d ''VACANTES''))
                (datasets t ''vacantes''),
              map_option (\<lambda>d. column d ''id_vacante_original'')
                (dimensions t ''dim_vacante'')))
   = Some (Some ([IntV 1, IntV 2, IntV 3], [IntV 5, IntV 4, IntV 0]),
           Some [IntV 1, IntV 2])"
  by code_simp

text \<open>
  Claim C3. The surrogate keys of a dimension should be free of duplicates. \<open>dim_vacante\<close>
  numbers the distinct posting ids and then left-joins them back to the job-posting dataset:
  two postings with one id give two rows with one key.
\<close>

theorem C3_dim_vacante_duplicate_keys:
  "(case transform_all sample_env (init_transformer sample_datasets_dup) of
      None \<Rightarrow> None
    | Some (dims, fs) \<Rightarrow>
        map_option (\<lambda>d. (column d ''vacante_sk'', column d ''num_vacantes''))
          (dims ''dim_vacante''))
   = Some ([IntV 1, IntV 1], [IntV 5, IntV 9])"
  by code_simp

text \<open>
  Claim C7. A dimension whose source is absent should be skipped with a warning and the
  transform should run to its end. Without the applicant dataset \<open>dim_postulante\<close> is skipped
  with its warning, but the education facts then look \<open>dim_postulante\<close> up and the transform
  returns nothing; without any source of locations \<open>dim_ubicacion\<close> is not skipped at all:
  the concatenation of no frame raises.
\<close>

theorem C7_missing_source_aborts:
  "(case build_dim_postulante (init_transformer sample_datasets_sin_postulante) of
      Inl err \<Rightarrow> None
    | Inr t \<Rightarrow> Some (dimensions t ''dim_postulante'', warnings t))
     = Some (None, [DatasetNoDisponible ''postulante''])
   \<and> (case build_hechos_formacion (init_transformer sample_datasets_sin_postulante) of
        Inl err \<Rightarrow> Some err
      | Inr t \<Rightarrow> None)
     = Some (KeyError ''dim_postulante'')
   \<and> transform_all sample_env (init_transformer sample_datasets_sin_postulante) = None
   \<and> (case build_dim_ubicacion (init_transformer sample_datasets_sin_ubicacion) of
        Inl err \<Rightarrow> Some err
      | Inr t \<Rightarrow> None)
     = Some ValueError
   \<and> transform_all sample_env (init_transformer sample_datasets_sin_ubicacion) = None"
  by code_simp

section \<open>Extraction is all or nothing\<close>

lemma ebind_Inr_iff: "ebind m f = Inr y \<longleftrightarrow> (\<exists>x. m = Inr x \<and> f x = Inr y)"
  by (cases m) (simp_all add: ebind_def)

lemma load_csv_Inr:
  "load_csv fs filename = Inr d \<longleftrightarrow> read_csv fs filename = Some (Inr d) \<and> \<not> df_empty d"
  by (auto simp: load_csv_def ebind_def split: option.splits sum.splits)

lemma load_files_Inr:
  "load_files fs fl ds = Inr ds' \<Longrightarrow>
     dom ds' = dom ds \<union> fst ` set fl \<and>
     (\<forall>p \<in> set fl. \<exists>d. read_csv fs (snd p) = Some (Inr d) \<and> \<not> df_empty d)"
proof (induction fl arbitrary: ds)
  case Nil
  then show ?case by simp
next
  case (Cons p fl)
  obtain name filename where p: "p = (name, filename)" by (cases p)
  from Cons.prems obtain d where d: "load_csv fs filename = Inr d"
    and rest: "load_files fs fl (ds(name \<mapsto> d)) = Inr ds'"
    by (auto simp: p ebind_Inr_iff)
  from Cons.IH[OF rest] d show ?case
    by (auto simp: p load_csv_Inr)
qed

lemma validate_extraction_Inr:
  "validate_extraction names ds = Inr u \<Longrightarrow>
     \<forall>n \<in> set names. \<exists>d. ds n = Some d \<and> \<not> df_empty d"
  by (induction names) (auto split: option.splits if_splits)

lemma extract_all_Some:
  assumes "extract_all fs ds0 = Some ds"
  shows "dom ds = dom ds0 \<union> fst ` set EXPECTED_FILES"
    and "\<forall>p \<in> set EXPECTED_FILES. \<exists>d. read_csv fs (snd p) = Some (Inr d) \<and> \<not> df_empty d"
    and "\<forall>n \<in> fst ` set EXPECTED_FILES. \<exists>d. ds n = Some d \<and> \<not> df_empty d"
proof -
  from assms obtain u where l: "load_files fs EXPECTED_FILES ds0 = Inr ds"
    and v: "validate_extraction (map fst EXPECTED_FILES) ds = Inr u"
    by (auto simp: extract_all_def ebind_Inr_iff split: sum.splits)
  from load_files_Inr[OF l] show "dom ds = dom ds0 \<union> fst ` set EXPECTED_FILES"
    and "\<forall>p \<in> set EXPECTED_FILES. \<exists>d. read_csv fs (snd p) = Some (Inr d) \<and> \<not> df_empty d"
    by simp_all
  from validate_extraction_Inr[OF v]
  show "\<forall>n \<in> fst ` set EXPECTED_FILES. \<exists>d. ds n = Some d \<and> \<not> df_empty d" by simp
qed

text \<open>
  Claim C6. Extraction fails when the directory is missing (the constructor raises), when
  one of the six files is missing, or when a loaded dataset has no row; a failed
  \<open>extract_all\<close> returns nothing; a successful one returns the six datasets, none empty.
\<close>

theorem C6_extraction_all_or_nothing:
  "(\<not> cleaned_path_exists fs \<longrightarrow> run_extraction fs = Inl FileNotFoundError)
   \<and> ((\<exists>p \<in> set EXPECTED_FILES. read_csv fs (snd p) = None) \<longrightarrow> extract_all fs ds0 = None)
   \<and> ((\<exists>p \<in> set EXPECTED_FILES. \<exists>d. read_csv fs (snd p) = Some (Inr d) \<and> rows d = [])
        \<longrightarrow> extract_all fs ds0 = None)
   \<and> (\<forall>ds. run_extraction fs = Inr (Some ds) \<longrightarrow>
         dom ds = {''postulante'', ''discapacidad'', ''educacion'', ''experiencias'',
                   ''vacantes'', ''competencias''}
         \<and> (\<forall>n \<in> dom ds. \<exists>d. ds n = Some d \<and> rows d \<noteq> []))"
proof (intro conjI impI allI)
  assume "\<not> cleaned_path_exists fs"
  then show "run_extraction fs = Inl FileNotFoundError"
    by (simp add: run_extraction_def DataExtractor_def ebind_def)
next
  assume a: "\<exists>p \<in> set EXPECTED_FILES. read_csv fs (snd p) = None"
  show "extract_all fs ds0 = None"
  proof (cases "extract_all fs ds0")
    case (Some ds)
    from extract_all_Some(2)[OF Some] a show ?thesis by fastforce
  qed simp
next
  assume a: "\<exists>p \<in> set EXPECTED_FILES. \<exists>d. read_csv fs (snd p) = Some (Inr d) \<and> rows d = []"
  show "extract_all fs ds0 = None"
  proof (cases "extract_all fs ds0")
    case (Some ds)
    from extract_all_Some(2)[OF Some] a show ?thesis by (fastforce simp: df_empty_def)
  qed simp
next
  fix ds assume r: "run_extraction fs = Inr (Some ds)"
  then have e: "extract_all fs Map.empty = Some ds"
    by (auto simp: run_extraction_def DataExtractor_def ebind_def split: if_splits)
  have names: "fst ` set EXPECTED_FILES = {''postulante'', ''discapacidad'', ''educacion'',
      ''experiencias'', ''vacantes'', ''competencias''}"
    by (simp add: EXPECTED_FILES_def)
  from extract_all_Some(1)[OF e] names
  show "dom ds = {''postulante'', ''discapacidad'', ''educacion'', ''experiencias'',
                   ''vacantes'', ''competencias''}" by simp
  with extract_all_Some(3)[OF e] names
  show "\<forall>n \<in> dom ds. \<exists>d. ds n = Some d \<and> rows d \<noteq> []"
    by (auto simp: df_empty_def)
qed

theorem C6_extraction_witness:
  "(\<exists>ds. run_extraction sample_fs = Inr (Some ds)
         \<and> dom ds = {''postulante'', ''discapacidad'', ''educacion'', ''experiencias'',
                      ''vacantes'', ''competencias''})
   \<and> extract_all sample_fs_sin_vacantes Map.empty = None"
proof
  have "case run_extraction sample_fs of Inr (Some ds) \<Rightarrow> True | _ \<Rightarrow> False"
    by code_simp
  then obtain ds where ds: "run_extraction sample_fs = Inr (Some ds)"
    by (cases "run_extraction sample_fs"; simp split: option.splits)
  note th = C6_extraction_all_or_nothing[of sample_fs Map.empty]
  have "\<forall>ds. run_extraction sample_fs = Inr (Some ds) \<longrightarrow>
         dom ds = {''postulante'', ''discapacidad'', ''educacion'', ''experiencias'',
                   ''vacantes'', ''competencias''}
         \<and> (\<forall>n \<in> dom ds. \<exists>d. ds n = Some d \<and> rows d \<noteq> [])"
    by (rule conjunct2[OF conjunct2[OF conjunct2[OF th]]])
  then have "dom ds = {''postulante'', ''discapacidad'', ''educacion'', ''experiencias'',
                   ''vacantes'', ''competencias''}"
    using ds by (elim allE[of _ ds] impE conjE) assumption+
  with ds show "\<exists>ds. run_extraction sample_fs = Inr (Some ds)
         \<and> dom ds = {''postulante'', ''discapacidad'', ''educacion'', ''experiencias'',
                      ''vacantes'', ''competencias''}"
    by (intro exI[of _ ds] conjI)
next
  note th = C6_extraction_all_or_nothing[of sample_fs_sin_vacantes Map.empty]
  have "(''vacantes'', ''vacantes_clean.csv'') \<in> set EXPECTED_FILES"
    by (simp add: EXPECTED_FILES_def)
  moreover have "read_csv sample_fs_sin_vacantes (snd (''vacantes'', ''vacantes_clean.csv'')) = None"
    by (simp add: sample_fs_sin_vacantes_def)
  ultimately have "\<exists>p \<in> set EXPECTED_FILES. read_csv sample_fs_sin_vacantes (snd p) = None"
    by (rule bexI[rotated])
  with conjunct1[OF conjunct2[OF th]]
  show "extract_all sample_fs_sin_vacantes Map.empty = None" by (rule mp)
qed

section \<open>Lemmas on frames\<close>

lemma idx_less: "c \<in> set xs \<Longrightarrow> idx c xs < length xs"
  by (induction xs) auto

lemma nth_idx: "c \<in> set xs \<Longrightarrow> xs ! idx c xs = c"
  by (induction xs) auto

lemma idx_append_in: "c \<in> set xs \<Longrightarrow> idx c (xs @ ys) = idx c xs"
  by (induction xs) auto

lemma idx_append_notin: "c \<notin> set xs \<Longrightarrow> idx c (xs @ ys) = length xs + idx c ys"
  by (induction xs) auto

lemma cell_map_cols: "c \<in> set cs \<Longrightarrow> cell cs (map f cs) c = f c"
  by (simp add: cell_def idx_less nth_idx)

lemma keep_first_subset: "set (keep_first f seen xs) \<subseteq> set xs"
  by (induction xs arbitrary: seen) auto

lemma keep_first_image: "f ` set (keep_first f seen xs) = f ` set xs - set seen"
  by (induction xs arbitrary: seen) auto

lemma keep_first_distinct:
  "distinct (map f (keep_first f seen xs))"
proof (induction xs arbitrary: seen)
  case (Cons x xs)
  have "f x \<notin> f ` set (keep_first f (f x # seen) xs)"
    by (simp add: keep_first_image)
  with Cons show ?case by simp
qed simp

lemma keep_first_id_set: "set (keep_first (\<lambda>x. x) [] xs) = set xs"
  using keep_first_image[of "\<lambda>x. x" "[]" xs] by simp

lemma keep_first_id_distinct: "distinct (keep_first (\<lambda>x. x) seen xs)"
  using keep_first_distinct[of "\<lambda>x. x" seen xs] by simp

lemma unique_nonnull_set: "set (unique_nonnull vs) = {v \<in> set vs. v \<noteq> Null}"
  by (auto simp: unique_nonnull_def keep_first_id_set)

lemma unique_nonnull_distinct: "distinct (unique_nonnull vs)"
  by (simp add: unique_nonnull_def keep_first_id_distinct)

lemma huerfanos_of_set:
  "set (huerfanos_of (unique_nonnull cs) (unique_nonnull vs))
     = {v \<in> set cs. v \<noteq> Null \<and> v \<notin> set vs}"
  by (auto simp: huerfanos_of_def unique_nonnull_set)

lemma huerfanos_of_distinct: "distinct (huerfanos_of (unique_nonnull cs) (unique_nonnull vs))"
  by (simp add: huerfanos_of_def unique_nonnull_distinct)

lemma ebind_Inr [simp]: "ebind (Inr x) f = f x"
  by (simp add: ebind_def)

lemma cell_reindex_row:
  "c \<in> set new \<Longrightarrow> cell new (reindex_row cs new r) c = (if c \<in> set cs then cell cs r c else Null)"
  by (simp add: reindex_row_def cell_map_cols)

lemma all_cols_set: "set (all_cols ds) = (\<Union>d \<in> set ds. set (cols d))"
  by (simp add: all_cols_def keep_first_id_set)

section \<open>What reconciliation does to the datasets\<close>

lemma reconcile_orphans_cases:
  fixes e :: env
  assumes "datasets t ''competencias'' = Some df_comp" "datasets t ''vacantes'' = Some df_vac"
    "''AVISOID'' \<in> set (cols df_comp)" "''AVISOID'' \<in> set (cols df_vac)"
  defines "avisos_comp \<equiv> unique_nonnull (column df_comp ''AVISOID'')"
      and "avisos_vac \<equiv> unique_nonnull (column df_vac ''AVISOID'')"
  defines "huerfanos \<equiv> huerfanos_of avisos_comp avisos_vac"
  defines "stats \<equiv> \<lparr>competencias_huerfanos = length huerfanos,
                      competencias_total = length avisos_comp,
                      competencias_pct = (if length avisos_comp > 0
                         then float_pct e (length huerfanos) (length avisos_comp)
                         else 0)\<rparr>"
  shows "reconcile_orphans e t =
     (if huerfanos = [] then Inr (t\<lparr>orphan_stats := Some stats\<rparr>)
      else Inr ((warn t (HuerfanosDetectados (length huerfanos)))
             \<lparr>datasets := (datasets t)(''vacantes'' \<mapsto>
                 DF (all_cols [df_vac, vacante_placeholder (today e) (set_iter e huerfanos)])
                    (map (reindex_row (cols df_vac)
                           (all_cols [df_vac, vacante_placeholder (today e) (set_iter e huerfanos)]))
                         (rows df_vac) @
                     map (reindex_row placeholder_cols
                           (all_cols [df_vac, vacante_placeholder (today e) (set_iter e huerfanos)]))
                         (map (placeholder_row (today e)) (set_iter e huerfanos)))),
               orphan_stats := Some stats\<rparr>))"
  using assms(1-4)
  unfolding reconcile_orphans_def stats_def huerfanos_def avisos_comp_def avisos_vac_def
  by (simp add: getcol_def Let_def concat_df_def vacante_placeholder_def)


text \<open>
  Claim C10. Reconciliation changes no dataset but the job-posting one, and neither the
  dimensions nor the facts; when every posting id the competencies refer to is a posting id
  of the job-posting dataset, nothing but the orphan statistics is written.
\<close>

theorem C10_reconcile_frame:
  assumes "reconcile_orphans e t = Inr t'"
  shows "(\<forall>k. k \<noteq> ''vacantes'' \<longrightarrow> datasets t' k = datasets t k)
     \<and> dimensions t' = dimensions t \<and> facts t' = facts t
     \<and> (\<forall>df_comp df_vac.
           datasets t ''competencias'' = Some df_comp \<and> datasets t ''vacantes'' = Some df_vac
           \<and> (\<forall>v \<in> set (column df_comp ''AVISOID'').
                 v \<noteq> Null \<longrightarrow> v \<in> set (column df_vac ''AVISOID''))
           \<longrightarrow> t' = t\<lparr>orphan_stats := orphan_stats t'\<rparr> \<and> orphan_stats t' \<noteq> None)"
proof (cases "datasets t ''competencias''")
  case None
  with assms have "t' = warn t DatasetsInsuficientes"
    by (simp add: reconcile_orphans_def)
  with None show ?thesis by (simp add: warn_def)
next
  case comp: (Some df_comp)
  show ?thesis
  proof (cases "datasets t ''vacantes''")
    case None
    with assms comp have "t' = warn t DatasetsInsuficientes"
      by (simp add: reconcile_orphans_def)
    with None show ?thesis by (simp add: warn_def)
  next
    case vac: (Some df_vac)
    from assms comp vac have c1: "''AVISOID'' \<in> set (cols df_comp)"
      by (auto simp: reconcile_orphans_def getcol_def ebind_def split: if_splits)
    from assms comp vac c1 have c2: "''AVISOID'' \<in> set (cols df_vac)"
      by (auto simp: reconcile_orphans_def getcol_def ebind_def split: if_splits)
    note eq = reconcile_orphans_cases[OF comp vac c1 c2, of e]
    define huerfanos where "huerfanos =
      huerfanos_of (unique_nonnull (column df_comp ''AVISOID''))
                   (unique_nonnull (column df_vac ''AVISOID''))"
    have frame: "(\<forall>k. k \<noteq> ''vacantes'' \<longrightarrow> datasets t' k = datasets t k)
        \<and> dimensions t' = dimensions t \<and> facts t' = facts t"
      using assms unfolding eq by (auto simp: warn_def split: if_splits)
    have none: "t' = t\<lparr>orphan_stats := orphan_stats t'\<rparr> \<and> orphan_stats t' \<noteq> None"
      if "\<forall>v \<in> set (column df_comp ''AVISOID''). v \<noteq> Null \<longrightarrow> v \<in> set (column df_vac ''AVISOID'')"
    proof -
      from that have "set huerfanos = {}"
        unfolding huerfanos_def huerfanos_of_set by auto
      then have "huerfanos = []" by simp
      with assms show ?thesis unfolding eq huerfanos_def by auto
    qed
    from frame none comp vac show ?thesis by auto
  qed
qed


theorem C10_reconcile_frame_witness:
  "(\<exists>t'. reconcile_orphans sample_env (init_transformer sample_datasets) = Inr t'
         \<and> datasets t' ''competencias'' = Some sample_competencias
         \<and> dimensions t' = Map.empty)
   \<and> (\<exists>t'. reconcile_orphans sample_env (init_transformer sample_datasets_sin_huerfanos) = Inr t'
         \<and> datasets t' = sample_datasets_sin_huerfanos \<and> warnings t' = [])"
proof
  have "case reconcile_orphans sample_env (init_transformer sample_datasets) of
          Inr t' \<Rightarrow> True | Inl err \<Rightarrow> False"
    by code_simp
  then obtain t' where t': "reconcile_orphans sample_env (init_transformer sample_datasets) = Inr t'"
    by (cases "reconcile_orphans sample_env (init_transformer sample_datasets)"; simp)
  note th = C10_reconcile_frame[OF t']
  have "datasets t' ''competencias'' = datasets (init_transformer sample_datasets) ''competencias''"
    using conjunct1[OF th] by simp
  moreover have "dimensions t' = dimensions (init_transformer sample_datasets)"
    using conjunct1[OF conjunct2[OF th]] .
  ultimately show "\<exists>t'. reconcile_orphans sample_env (init_transformer sample_datasets) = Inr t'
         \<and> datasets t' ''competencias'' = Some sample_competencias
         \<and> dimensions t' = Map.empty"
    using t' by (intro exI[of _ t']) (simp add: init_transformer_def sample_datasets_def)
next
  let ?t = "init_transformer sample_datasets_sin_huerfanos"
  have "case reconcile_orphans sample_env ?t of Inr t' \<Rightarrow> True | Inl err \<Rightarrow> False"
    by code_simp
  then obtain t' where t': "reconcile_orphans sample_env ?t = Inr t'"
    by (cases "reconcile_orphans sample_env ?t"; simp)
  note th = conjunct2[OF conjunct2[OF conjunct2[OF C10_reconcile_frame[OF t']]]]
  have c: "datasets ?t ''competencias''
             = Some (DF [''AVISOID'', ''NOMBRECOMPETENCIA''] [[IntV 1, StrV ''A''], [IntV 2, StrV ''B'']])"
    by (simp add: init_transformer_def sample_datasets_sin_huerfanos_def)
  have v: "datasets ?t ''vacantes'' = Some sample_vacantes"
    by (simp add: init_transformer_def sample_datasets_sin_huerfanos_def sample_datasets_def)
  have sub: "\<forall>v \<in> set (column (DF [''AVISOID'', ''NOMBRECOMPETENCIA'']
                                  [[IntV 1, StrV ''A''], [IntV 2, StrV ''B'']]) ''AVISOID'').
               v \<noteq> Null \<longrightarrow> v \<in> set (column sample_vacantes ''AVISOID'')"
    by (simp add: column_def cell_def sample_vacantes_def)
  from th c v sub have "t' = ?t\<lparr>orphan_stats := orphan_stats t'\<rparr>" by blast
  then have "datasets t' = datasets ?t \<and> warnings t' = warnings ?t"
    by (metis transformer.select_convs(1) transformer.select_convs(5)
              transformer.surjective transformer.update_convs(4))
  with t' show "\<exists>t'. reconcile_orphans sample_env ?t = Inr t'
         \<and> datasets t' = sample_datasets_sin_huerfanos \<and> warnings t' = []"
    by (intro exI[of _ t']) (simp add: init_transformer_def)
qed


lemma placeholder_cells:
  "cell placeholder_cols (placeholder_row f a) ''AVISOID'' = a"
  "cell placeholder_cols (placeholder_row f a) ''NOMBREAVISO'' = StrV ''REGISTRO_HUERFANO_PRESERVADO''"
  "cell placeholder_cols (placeholder_row f a) ''VACANTES'' = IntV 0"
  "cell placeholder_cols (placeholder_row f a) ''SECTOR'' = StrV ''SIN_CLASIFICAR''"
  "cell placeholder_cols (placeholder_row f a) ''UBIGEO'' = StrV ''000000''"
  "cell placeholder_cols (placeholder_row f a) ''SINEXPERIENCIA'' = StrV ''NO''"
  "cell placeholder_cols (placeholder_row f a) ''TIEMPOEXPERIENCIA'' = IntV 0"
  "cell placeholder_cols (placeholder_row f a) ''DEPARTAMENTO'' = StrV ''SIN_ESPECIFICAR''"
  "cell placeholder_cols (placeholder_row f a) ''PROVINCIA'' = StrV ''SIN_ESPECIFICAR''"
  "cell placeholder_cols (placeholder_row f a) ''DISTRITO'' = StrV ''SIN_ESPECIFICAR''"
  "cell placeholder_cols (placeholder_row f a) ''FECHAINICIO'' = DateV f"
  "cell placeholder_cols (placeholder_row f a) ''FECHAFIN'' = DateV f"
  "cell placeholder_cols (placeholder_row f a) ''FECHACREACION'' = DateV f"
  by (simp_all add: cell_def placeholder_cols_def placeholder_row_def)

lemma placeholder_cols_mem:
  "''AVISOID'' \<in> set placeholder_cols" "''NOMBREAVISO'' \<in> set placeholder_cols"
  "''VACANTES'' \<in> set placeholder_cols" "''SECTOR'' \<in> set placeholder_cols"
  "''UBIGEO'' \<in> set placeholder_cols" "''SINEXPERIENCIA'' \<in> set placeholder_cols"
  "''TIEMPOEXPERIENCIA'' \<in> set placeholder_cols" "''DEPARTAMENTO'' \<in> set placeholder_cols"
  "''PROVINCIA'' \<in> set placeholder_cols" "''DISTRITO'' \<in> set placeholder_cols"
  "''FECHAINICIO'' \<in> set placeholder_cols" "''FECHAFIN'' \<in> set placeholder_cols"
  "''FECHACREACION'' \<in> set placeholder_cols"
  by (simp_all add: placeholder_cols_def)




section \<open>The applicant dimension\<close>

lemma keep_first_map: "map f (keep_first f seen xs) = keep_first (\<lambda>x. x) seen (map f xs)"
  by (induction xs arbitrary: seen) auto

lemma keep_first_inj:
  "inj h \<Longrightarrow> keep_first (\<lambda>x. h (g x)) (map h seen) xs = keep_first g seen xs"
proof (induction xs arbitrary: seen)
  case (Cons x xs)
  from Cons.prems have "h (g x) \<in> h ` set seen \<longleftrightarrow> g x \<in> set seen"
    by (auto dest: injD)
  with Cons.IH[OF Cons.prems, of "g x # seen"] Cons.IH[OF Cons.prems, of seen]
  show ?case by simp
qed simp

lemma keep_first_find:
  "x \<in> set (keep_first f seen xs) \<Longrightarrow> find (\<lambda>y. f y = f x) xs = Some x"
proof (induction xs arbitrary: seen)
  case (Cons a xs)
  show ?case
  proof (cases "f a \<in> set seen")
    case True
    with Cons.prems have x: "x \<in> set (keep_first f seen xs)" by simp
    then have "f x \<in> f ` set xs - set seen"
      using keep_first_image[of f seen xs] by blast
    with True have "f a \<noteq> f x" by auto
    with Cons.IH[OF x] show ?thesis by simp
  next
    case False
    with Cons.prems consider "x = a" | "x \<in> set (keep_first f (f a # seen) xs)" by auto
    then show ?thesis
    proof cases
      case 1
      then show ?thesis by simp
    next
      case 2
      then have "f x \<in> f ` set xs - set (f a # seen)"
        using keep_first_image[of f "f a # seen" xs] by blast
      then have "f a \<noteq> f x" by auto
      with Cons.IH[OF 2] show ?thesis by simp
    qed
  qed
qed simp

lemma find_map: "find P (map f xs) = map_option f (find (\<lambda>x. P (f x)) xs)"
  by (induction xs) auto

lemma idx_map_inj: "inj_on g (insert c (set xs)) \<Longrightarrow> idx (g c) (map g xs) = idx c xs"
proof (induction xs)
  case (Cons x xs)
  from Cons.prems have "g x = g c \<longleftrightarrow> x = c" by (auto simp: inj_on_def)
  moreover from Cons.prems have "inj_on g (insert c (set xs))"
    by (auto simp: inj_on_def)
  ultimately show ?case using Cons.IH by simp
qed simp

lemma select_Inr:
  "set cs \<subseteq> set (cols d) \<Longrightarrow>
     select d cs = Inr (DF cs (map (\<lambda>r. map (cell (cols d) r) cs) (rows d)))"
proof -
  assume "set cs \<subseteq> set (cols d)"
  then have "filter (\<lambda>c. c \<notin> set (cols d)) cs = []" by (auto simp: filter_empty_conv)
  then show ?thesis by (simp add: select_def)
qed

lemma drop_duplicates_single:
  assumes "c \<in> set (cols d)"
  shows "drop_duplicates d [c] = Inr (DF (cols d) (keep_first (\<lambda>r. cell (cols d) r c) [] (rows d)))"
proof -
  have "inj (\<lambda>v::val. [v])" by (simp add: inj_def)
  from keep_first_inj[OF this, of "\<lambda>r. cell (cols d) r c" "[]" "rows d"]
  show ?thesis using assms by (simp add: drop_duplicates_def)
qed

lemma length_range1 [simp]: "length (range1 n) = n"
  by (simp add: range1_def)

lemma range1_nth: "i < n \<Longrightarrow> range1 n ! i = IntV (int (Suc i))"
  unfolding range1_def by (simp del: upt_Suc)


lemma rename_cols: "cols (rename d m) = map (rename_col m) (cols d)"
  by (simp add: rename_def)

lemma rename_rows [simp]: "rows (rename d m) = rows d"
  by (simp add: rename_def)

lemma postulante_rename_inj:
  "inj_on (rename_col postulante_renames)
     {''postulante_sk'', ''ID_POSTULANTE'', ''EDAD'', ''SEXO'', ''UBIGEO'', ''ESTADO_CONADIS''}"
  by (simp add: rename_col_def postulante_renames_def)

lemma build_dim_postulante_eq:
  assumes post: "datasets t ''postulante'' = Some df_post"
    and idc: "''ID_POSTULANTE'' \<in> set (cols df_post)"
  defines "ca \<equiv> postulante_cols_available df_post"
  defines "kept \<equiv> keep_first (\<lambda>s. cell ca s ''ID_POSTULANTE'') []
                     (map (\<lambda>r. map (cell (cols df_post) r) ca) (rows df_post))"
  shows "build_dim_postulante t =
     Inr (put_dim t ''dim_postulante''
            (DF (map (rename_col postulante_renames) (''postulante_sk'' # ca))
                (map2 (#) (range1 (length kept)) kept)))"
proof -
  have sub: "set ca \<subseteq> set (cols df_post)"
    by (auto simp: ca_def postulante_cols_available_def)
  have idca: "''ID_POSTULANTE'' \<in> set ca"
    using idc by (simp add: ca_def postulante_cols_available_def)
  have nosk: "''postulante_sk'' \<notin> set ca"
    by (auto simp: ca_def postulante_cols_available_def)
  have sel: "select df_post ca = Inr (DF ca (map (\<lambda>r. map (cell (cols df_post) r) ca) (rows df_post)))"
    by (rule select_Inr[OF sub])
  have dd: "drop_duplicates (DF ca (map (\<lambda>r. map (cell (cols df_post) r) ca) (rows df_post)))
              [''ID_POSTULANTE''] = Inr (DF ca kept)"
    using drop_duplicates_single[of "''ID_POSTULANTE''"
            "DF ca (map (\<lambda>r. map (cell (cols df_post) r) ca) (rows df_post))"] idca
    by (simp add: kept_def)
  have ins: "insert_col0 (DF ca kept) ''postulante_sk'' (range1 (length kept))
      = Inr (DF (''postulante_sk'' # ca) (map2 (#) (range1 (length kept)) kept))"
    using nosk by (simp add: insert_col0_def)
  have ca_eq: "filter (\<lambda>c. c \<in> set (cols df_post))
       [''ID_POSTULANTE'', ''EDAD'', ''SEXO'', ''UBIGEO'', ''ESTADO_CONADIS''] = ca"
    by (simp only: ca_def postulante_cols_available_def)
  have ren: "rename (DF (''postulante_sk'' # ca) (map2 (#) (range1 (length kept)) kept))
               postulante_renames
      = DF (map (rename_col postulante_renames) (''postulante_sk'' # ca))
           (map2 (#) (range1 (length kept)) kept)"
    by (simp add: rename_def)
  show ?thesis
    unfolding build_dim_postulante_def post option.case Let_def ca_eq
    by (simp only: sel ebind_Inr dd ins ren df.sel)
qed


lemma map2_cons_fst:
  "length vs = length rs \<Longrightarrow> map (\<lambda>r. r ! 0) (map2 (#) vs rs) = vs"
  by (induction vs rs rule: list_induct2) auto

lemma map2_cons_tl:
  "length vs = length rs \<Longrightarrow> map (\<lambda>r. f (tl r)) (map2 (#) vs rs) = map f rs"
  by (induction vs rs rule: list_induct2) auto

lemma map2_cons_set:
  "r \<in> set (map2 (#) vs rs) \<Longrightarrow> \<exists>v s. r = v # s \<and> s \<in> set rs"
  by (auto dest: set_zip_rightD)

text \<open>
  Claim C9. \<open>dim_postulante\<close> has one row per distinct applicant id (so as many rows as there
  are distinct ids), each row carries the attributes of the first source row with its id, and
  the surrogate keys are the row positions counted from 1.
\<close>

theorem C9_dim_postulante_one_row_per_key:
  assumes post: "datasets t ''postulante'' = Some df_post"
    and idc: "''ID_POSTULANTE'' \<in> set (cols df_post)"
  shows "\<exists>t' dim. build_dim_postulante t = Inr t'
    \<and> dimensions t' ''dim_postulante'' = Some dim
    \<and> distinct (column dim ''id_postulante_original'')
    \<and> set (column dim ''id_postulante_original'') = set (column df_post ''ID_POSTULANTE'')
    \<and> length (rows dim) = card (set (column df_post ''ID_POSTULANTE''))
    \<and> column dim ''postulante_sk'' = map (\<lambda>i. IntV (int i)) [1..<Suc (length (rows dim))]
    \<and> (\<forall>r \<in> set (rows dim). \<exists>src.
          find (\<lambda>s. cell (cols df_post) s ''ID_POSTULANTE''
                      = cell (cols dim) r ''id_postulante_original'') (rows df_post) = Some src
          \<and> (\<forall>p \<in> set postulante_renames. fst p \<in> set (cols df_post) \<longrightarrow>
                snd p \<in> set (cols dim)
                \<and> cell (cols dim) r (snd p) = cell (cols df_post) src (fst p)))"
proof -
  define ca where "ca = postulante_cols_available df_post"
  define proj where "proj = (\<lambda>r. map (cell (cols df_post) r) ca)"
  define kept where "kept = keep_first (\<lambda>s. cell ca s ''ID_POSTULANTE'') [] (map proj (rows df_post))"
  define g where "g = rename_col postulante_renames"
  define dc where "dc = map g (''postulante_sk'' # ca)"
  define dim where "dim = DF dc (map2 (#) (range1 (length kept)) kept)"
  define t' where "t' = put_dim t ''dim_postulante'' dim"
  have b: "build_dim_postulante t = Inr t'"
    unfolding t'_def dim_def dc_def g_def kept_def proj_def ca_def
    by (rule build_dim_postulante_eq[OF post idc])
  have d: "dimensions t' ''dim_postulante'' = Some dim"
    by (simp add: t'_def put_dim_def)
  have sub: "set ca \<subseteq> set (cols df_post)"
    by (auto simp: ca_def postulante_cols_available_def)
  have ca6: "set ca \<subseteq> {''ID_POSTULANTE'', ''EDAD'', ''SEXO'', ''UBIGEO'', ''ESTADO_CONADIS''}"
    by (auto simp: ca_def postulante_cols_available_def)
  have idca: "''ID_POSTULANTE'' \<in> set ca"
    using idc by (simp add: ca_def postulante_cols_available_def)
  have key_proj: "cell ca (proj r) c = cell (cols df_post) r c" if "c \<in> set ca" for r c
    using that by (simp add: proj_def cell_map_cols)
  have inj: "inj_on g (insert c (set (''postulante_sk'' # ca)))" if "c \<in> set ca" for c
  proof -
    define S where "S = {''ID_POSTULANTE'', ''EDAD'', ''SEXO'', ''UBIGEO'', ''ESTADO_CONADIS''}"
    have "inj_on g (insert ''postulante_sk'' S)"
      unfolding g_def S_def by (rule postulante_rename_inj)
    moreover have "insert c (set (''postulante_sk'' # ca)) \<subseteq> insert ''postulante_sk'' S"
      using that ca6 unfolding S_def[symmetric] by (simp only: list.set) blast
    ultimately show ?thesis by (rule inj_on_subset)
  qed
  have gsk: "g ''postulante_sk'' = ''postulante_sk''"
    by (simp add: g_def rename_col_def postulante_renames_def)
  have idx_g: "idx (g c) dc = Suc (idx c ca)" if "c \<in> set ca" for c
  proof -
    have "c \<noteq> ''postulante_sk''" using that ca6 by auto
    then show ?thesis
      unfolding dc_def using idx_map_inj[OF inj[OF that]] by simp
  qed
  have cell_g: "cell dc (v # s) (g c) = cell ca s c" if "c \<in> set ca" for c v s
    by (simp add: cell_def idx_g[OF that])
  have cell_sk: "cell dc r ''postulante_sk'' = r ! 0" for r
    by (simp add: cell_def dc_def gsk)
  have gid: "g ''ID_POSTULANTE'' = ''id_postulante_original''"
    by (simp add: g_def rename_col_def postulante_renames_def)
  have len: "length (range1 (length kept)) = length kept" by simp
  have rows_dim: "rows dim = map2 (#) (range1 (length kept)) kept"
    and cols_dim: "cols dim = dc"
    by (simp_all add: dim_def)
  have "column dim ''id_postulante_original''
      = map (\<lambda>r. cell ca (tl r) ''ID_POSTULANTE'') (rows dim)"
  proof -
    have "cell dc r (g ''ID_POSTULANTE'') = cell ca (tl r) ''ID_POSTULANTE''"
      if "r \<in> set (rows dim)" for r
      using map2_cons_set[OF that[unfolded rows_dim]] cell_g[OF idca] by auto
    then show ?thesis by (simp add: column_def cols_dim gid)
  qed
  also have "\<dots> = map (\<lambda>s. cell ca s ''ID_POSTULANTE'') kept"
    unfolding rows_dim by (rule map2_cons_tl[OF len])
  also have "\<dots> = keep_first (\<lambda>x. x) [] (map (\<lambda>s. cell ca s ''ID_POSTULANTE'') (map proj (rows df_post)))"
    unfolding kept_def by (rule keep_first_map)
  also have "map (\<lambda>s. cell ca s ''ID_POSTULANTE'') (map proj (rows df_post))
      = column df_post ''ID_POSTULANTE''"
    by (simp add: column_def key_proj[OF idca])
  finally have idcol: "column dim ''id_postulante_original''
      = keep_first (\<lambda>x. x) [] (column df_post ''ID_POSTULANTE'')" .
  have p1: "distinct (column dim ''id_postulante_original'')"
    unfolding idcol by (rule keep_first_id_distinct)
  have p2: "set (column dim ''id_postulante_original'') = set (column df_post ''ID_POSTULANTE'')"
    unfolding idcol by (rule keep_first_id_set)
  have "length (rows dim) = length (column dim ''id_postulante_original'')"
    by (simp add: column_def)
  also have "\<dots> = card (set (column dim ''id_postulante_original''))"
    using p1 by (simp add: distinct_card)
  finally have p3: "length (rows dim) = card (set (column df_post ''ID_POSTULANTE''))"
    unfolding p2 .
  have nrows: "length (rows dim) = length kept" by (simp add: rows_dim)
  have "column dim ''postulante_sk'' = map (\<lambda>r. r ! 0) (rows dim)"
    by (simp add: column_def cols_dim cell_sk)
  also have "\<dots> = range1 (length kept)"
    unfolding rows_dim by (rule map2_cons_fst[OF len])
  finally have p4: "column dim ''postulante_sk''
      = map (\<lambda>i. IntV (int i)) [1..<Suc (length (rows dim))]"
    unfolding nrows range1_def .
  have p5: "\<exists>src.
          find (\<lambda>s. cell (cols df_post) s ''ID_POSTULANTE''
                      = cell (cols dim) r ''id_postulante_original'') (rows df_post) = Some src
          \<and> (\<forall>p \<in> set postulante_renames. fst p \<in> set (cols df_post) \<longrightarrow>
                snd p \<in> set (cols dim)
                \<and> cell (cols dim) r (snd p) = cell (cols df_post) src (fst p))"
    if r: "r \<in> set (rows dim)" for r
  proof -
    from map2_cons_set[OF r[unfolded rows_dim]] obtain v s where
      rs: "r = v # s" and s: "s \<in> set kept" by auto
    from keep_first_find[OF s[unfolded kept_def]]
    have "find (\<lambda>y. cell ca y ''ID_POSTULANTE'' = cell ca s ''ID_POSTULANTE'')
            (map proj (rows df_post)) = Some s" .
    then obtain src where
      f: "find (\<lambda>x. cell ca (proj x) ''ID_POSTULANTE'' = cell ca s ''ID_POSTULANTE'')
            (rows df_post) = Some src" and ps: "proj src = s"
      unfolding find_map by auto
    have key: "cell (cols dim) r ''id_postulante_original'' = cell ca s ''ID_POSTULANTE''"
      unfolding cols_dim rs gid[symmetric] by (rule cell_g[OF idca])
    have f': "find (\<lambda>x. cell (cols df_post) x ''ID_POSTULANTE''
                = cell (cols dim) r ''id_postulante_original'') (rows df_post) = Some src"
      using f unfolding key key_proj[OF idca] .
    have attrs: "snd p \<in> set (cols dim)
                \<and> cell (cols dim) r (snd p) = cell (cols df_post) src (fst p)"
      if p: "p \<in> set postulante_renames" and pc: "fst p \<in> set (cols df_post)" for p
    proof -
      from p have c6: "fst p \<in> {''ID_POSTULANTE'', ''EDAD'', ''SEXO'', ''UBIGEO'', ''ESTADO_CONADIS''}"
        and gp: "g (fst p) = snd p"
        by (auto simp: postulante_renames_def g_def rename_col_def)
      with pc have inca: "fst p \<in> set ca"
        by (auto simp: ca_def postulante_cols_available_def)
      have "snd p \<in> set (cols dim)"
        unfolding cols_dim dc_def gp[symmetric] using inca by simp
      moreover have "cell (cols dim) r (snd p) = cell (cols df_post) src (fst p)"
        unfolding cols_dim rs gp[symmetric] cell_g[OF inca] ps[symmetric]
        by (rule key_proj[OF inca])
      ultimately show ?thesis ..
    qed
    from f' attrs show ?thesis by blast
  qed
  from b d p1 p2 p3 p4 p5 show ?thesis by blast
qed


theorem C9_dim_postulante_witness:
  "\<exists>t' dim. build_dim_postulante (init_transformer [''postulante'' \<mapsto> sample_postulante_dup]) = Inr t'
     \<and> dimensions t' ''dim_postulante'' = Some dim
     \<and> length (rows dim) = 2
     \<and> column dim ''postulante_sk'' = [IntV 1, IntV 2]"
proof -
  let ?t = "init_transformer [''postulante'' \<mapsto> sample_postulante_dup]"
  have post: "datasets ?t ''postulante'' = Some sample_postulante_dup"
    by (simp add: init_transformer_def)
  have idc: "''ID_POSTULANTE'' \<in> set (cols sample_postulante_dup)"
    by (simp add: sample_postulante_dup_def)
  have card: "card (set (column sample_postulante_dup ''ID_POSTULANTE'')) = 2"
    by code_simp
  have r: "map (\<lambda>i. IntV (int i)) [1..<Suc 2] = [IntV 1, IntV 2]"
    by code_simp
  from C9_dim_postulante_one_row_per_key[OF post idc, unfolded card]
  obtain t' dim where "build_dim_postulante ?t = Inr t'"
    "dimensions t' ''dim_postulante'' = Some dim" "length (rows dim) = 2"
    "column dim ''postulante_sk'' = map (\<lambda>i. IntV (int i)) [1..<Suc (length (rows dim))]"
    by blast
  then show ?thesis unfolding r[symmetric] by (intro exI[of _ t'] exI[of _ dim]) simp
qed

section \<open>The time dimension\<close>

text \<open>The day 19723 is Monday 2024-01-01.\<close>

lemma calendar_sample:
  "year_of 19723 = 2024 \<and> month_of 19723 = 1 \<and> day_of 19723 = 1 \<and> dayofweek 19723 = 0"
  by code_simp

lemma int_div_bounds:
  fixes x k :: int
  assumes "0 < k"
  shows "k * (x div k) \<le> x" and "x < k * (x div k) + k"
proof -
  have e: "x = k * (x div k) + x mod k" by simp
  have "0 \<le> x mod k" "x mod k < k" using assms by simp_all
  with e show "k * (x div k) \<le> x" and "x < k * (x div k) + k" by linarith+
qed

lemma doy_of_bounds: "- 6 \<le> doy_of days \<and> doy_of days \<le> 370"
proof -
  define doe where "doe = doe_of days"
  define a where "a = doe div 1460"
  define b where "b = doe div 36524"
  define c where "c = doe div 146096"
  define N where "N = doe - a + b - c"
  define yoe where "yoe = N div 365"
  define q where "q = yoe div 4"
  define h where "h = yoe div 100"
  have doe: "0 \<le> doe" "doe < 146097" by (simp_all add: doe_def doe_of_def)
  have fa: "1460 * a \<le> doe" "doe < 1460 * a + 1460"
    unfolding a_def by (rule int_div_bounds; simp)+
  have fb: "36524 * b \<le> doe" "doe < 36524 * b + 36524"
    unfolding b_def by (rule int_div_bounds; simp)+
  have fc: "146096 * c \<le> doe" "doe < 146096 * c + 146096"
    unfolding c_def by (rule int_div_bounds; simp)+
  have fy: "365 * yoe \<le> N" "N < 365 * yoe + 365"
    unfolding yoe_def by (rule int_div_bounds; simp)+
  have fq: "4 * q \<le> yoe" "yoe < 4 * q + 4"
    unfolding q_def by (rule int_div_bounds; simp)+
  have fh: "100 * h \<le> yoe" "yoe < 100 * h + 100"
    unfolding h_def by (rule int_div_bounds; simp)+
  have doy: "doy_of days = doe - (365 * yoe + q - h)"
    by (simp add: doy_of_def yoe_of_def Let_def doe_def a_def b_def c_def N_def yoe_def q_def h_def)
  have "- 6 \<le> doe - (365 * yoe + q - h)"
    using doe fa fb fc fy fq fh unfolding N_def by linarith
  moreover have "doe - (365 * yoe + q - h) \<le> 370"
    using doe fa fb fc fy fq fh unfolding N_def by linarith
  ultimately show ?thesis unfolding doy by simp
qed

lemma month_of_bounds: "1 \<le> month_of days" "month_of days \<le> 12"
proof -
  define doy where "doy = doy_of days"
  define mp where "mp = (5 * doy + 2) div 153"
  have d: "- 6 \<le> doy" "doy \<le> 370" using doy_of_bounds[of days] by (simp_all add: doy_def)
  have fm: "153 * mp \<le> 5 * doy + 2" "5 * doy + 2 < 153 * mp + 153"
    unfolding mp_def by (rule int_div_bounds; simp)+
  have m: "month_of days = (if mp < 10 then mp + 3 else mp - 9)"
    by (simp add: month_of_def mp_of_def Let_def mp_def doy_def)
  show "1 \<le> month_of days" unfolding m using d fm by (simp; linarith)
  show "month_of days \<le> 12" unfolding m using d fm by (simp; linarith)
qed

lemma quarter_of_bounds: "1 \<le> quarter_of days" "quarter_of days \<le> 4"
proof -
  have m: "1 \<le> month_of days" "month_of days \<le> 12" by (rule month_of_bounds)+
  have f: "3 * ((month_of days - 1) div 3) \<le> month_of days - 1"
      "month_of days - 1 < 3 * ((month_of days - 1) div 3) + 3"
    by (rule int_div_bounds; simp)+
  show "1 \<le> quarter_of days" unfolding quarter_of_def using m f by linarith
  show "quarter_of days \<le> 4" unfolding quarter_of_def using m f by linarith
qed

lemma dayofweek_bounds: "0 \<le> dayofweek days" "dayofweek days \<le> 6"
  by (simp_all add: dayofweek_def) 


lemma set_map_filter: "set (List.map_filter f xs) = {y. \<exists>x \<in> set xs. f x = Some y}"
  by (induction xs) (auto simp: List.map_filter_simps split: option.splits)

lemma set_fechas_de: "set (fechas_de e d cs) = parsed_dates e d cs"
  by (auto simp: fechas_de_def parsed_dates_def set_map_filter)

lemma fechas_unicas_of_props:
  "sorted (fechas_unicas_of e t)" "distinct (fechas_unicas_of e t)"
  "set (fechas_unicas_of e t) = normalize ` fechas_fuente e t"
  by (auto simp: fechas_unicas_of_def fechas_fuente_def Let_def set_fechas_de
           split: option.splits)

lemma tiempo_row_cells:
  "cell tiempo_cols (tiempo_row sk f) ''fecha_sk'' = sk"
  "cell tiempo_cols (tiempo_row sk f) ''fecha'' = TsV f"
  "cell tiempo_cols (tiempo_row sk f) ''trimestre'' = IntV (quarter_of (days_of f))"
  "cell tiempo_cols (tiempo_row sk f) ''semestre''
     = IntV (if quarter_of (days_of f) \<le> 2 then 1 else 2)"
  "cell tiempo_cols (tiempo_row sk f) ''dia_semana'' = IntV (dayofweek (days_of f) + 1)"
  "cell tiempo_cols (tiempo_row sk f) ''es_fin_semana''
     = BoolV (dayofweek (days_of f) + 1 \<in> {6, 7})"
  by (simp_all add: cell_def tiempo_cols_def tiempo_row_def Let_def)

lemma map2_map_fst:
  "length xs = length ys \<Longrightarrow> (\<And>x y. g (f x y) = x) \<Longrightarrow> map g (map2 f xs ys) = xs"
  by (induction xs ys rule: list_induct2) auto

lemma map2_map_snd:
  "length xs = length ys \<Longrightarrow> (\<And>x y. g (f x y) = h y) \<Longrightarrow> map g (map2 f xs ys) = map h ys"
  by (induction xs ys rule: list_induct2) auto




section \<open>Referential integrity of the inner-joined keys\<close>

lemma plainI: "c \<noteq> [] \<Longrightarrow> last c \<noteq> CHR ''x'' \<Longrightarrow> last c \<noteq> CHR ''y'' \<Longrightarrow> plain c"
  by (auto simp: plain_def)

lemma idx_eq_imp: "c \<in> set xs \<Longrightarrow> idx c xs = idx c' xs \<Longrightarrow> c = c'"
  by (induction xs) (auto split: if_splits)

lemma idx_map_pres: "(\<And>x. x \<in> set xs \<Longrightarrow> (g x = c) = (x = c)) \<Longrightarrow> idx c (map g xs) = idx c xs"
  by (induction xs) auto

lemma col_inI: "wf_df d \<Longrightarrow> (c \<in> set (cols d) \<Longrightarrow> set (column d c) \<subseteq> S) \<Longrightarrow> col_in c S d"
  by (simp add: col_in_def)

lemma col_in_wf: "col_in c S d \<Longrightarrow> wf_df d"
  by (simp add: col_in_def)

lemma col_in_sub: "col_in c S d \<Longrightarrow> c \<in> set (cols d) \<Longrightarrow> set (column d c) \<subseteq> S"
  by (simp add: col_in_def)

lemma select_Inr_iff:
  "select d cs = Inr d' \<longleftrightarrow>
     set cs \<subseteq> set (cols d) \<and> d' = DF cs (map (\<lambda>r. map (cell (cols d) r) cs) (rows d))"
proof (cases "filter (\<lambda>c. c \<notin> set (cols d)) cs")
  case Nil
  then have "set cs \<subseteq> set (cols d)" by (auto simp: filter_empty_conv)
  with Nil show ?thesis by (auto simp: select_def)
next
  case (Cons a as)
  then have "a \<in> set (filter (\<lambda>c. c \<notin> set (cols d)) cs)" by simp
  then have "\<not> set cs \<subseteq> set (cols d)" by auto
  with Cons show ?thesis by (simp add: select_def)
qed

lemma select_wf: "select d cs = Inr d' \<Longrightarrow> wf_df d'"
  by (auto simp: select_Inr_iff wf_df_def)

lemma select_cols: "select d cs = Inr d' \<Longrightarrow> cols d' = cs"
  by (auto simp: select_Inr_iff)

lemma select_column: "select d cs = Inr d' \<Longrightarrow> c \<in> set cs \<Longrightarrow> column d' c = column d c"
  by (auto simp: select_Inr_iff column_def cell_map_cols)

lemma select_col_in: "select d cs = Inr d' \<Longrightarrow> col_in c S d \<Longrightarrow> col_in c S d'"
proof (rule col_inI)
  assume s: "select d cs = Inr d'" and i: "col_in c S d"
  show "wf_df d'" by (rule select_wf[OF s])
  assume "c \<in> set (cols d')"
  then have c: "c \<in> set cs" by (simp add: select_cols[OF s])
  with s have "c \<in> set (cols d)" by (auto simp: select_Inr_iff)
  with i show "set (column d' c) \<subseteq> S"
    by (simp add: select_column[OF s c] col_in_def)
qed

lemma rows_subset_col_in:
  assumes "cols d' = cols d" "set (rows d') \<subseteq> set (rows d)" "col_in c S d"
  shows "col_in c S d'"
  using assms by (auto simp: col_in_def wf_df_def column_def)

lemma drop_duplicates_all_col_in: "col_in c S d \<Longrightarrow> col_in c S (drop_duplicates_all d)"
  by (rule rows_subset_col_in[of _ d]) (simp_all add: drop_duplicates_all_def keep_first_subset)

lemma dropna_col_in: "col_in c S d \<Longrightarrow> col_in c S (dropna d)"
  by (rule rows_subset_col_in[of _ d]) (auto simp: dropna_def)

lemma dropna_subset_col_in:
  "dropna_subset d ks = Inr d' \<Longrightarrow> col_in c S d \<Longrightarrow> col_in c S d'"
  by (rule rows_subset_col_in[of _ d])
     (auto simp: dropna_subset_def split: list.splits)

lemma map_col_col_in:
  assumes "c' \<noteq> c" "col_in c S d"
  shows "col_in c S (map_col d c' f)"
proof (rule col_inI)
  from assms(2) have "wf_df d" by (rule col_in_wf)
  then show "wf_df (map_col d c' f)" by (simp add: wf_df_def map_col_def)
  assume "c \<in> set (cols (map_col d c' f))"
  then have c: "c \<in> set (cols d)" by (simp add: map_col_def)
  then have "idx c (cols d) \<noteq> idx c' (cols d)" using idx_eq_imp[OF c] assms(1) by blast
  then have "column (map_col d c' f) c = column d c"
    by (simp add: column_def map_col_def cell_def)
  with col_in_sub[OF assms(2) c] show "set (column (map_col d c' f) c) \<subseteq> S" by simp
qed

lemma set_col_rows:
  assumes "r' \<in> set (rows (set_col d c vs))"
  shows "\<exists>v r. v \<in> set vs \<and> r \<in> set (rows d) \<and>
           r' = (if c \<in> set (cols d) then r[idx c (cols d) := v] else r @ [v])"
proof (cases "c \<in> set (cols d)")
  case True
  with assms have "r' \<in> (\<lambda>(v, r). r[idx c (cols d) := v]) ` set (zip vs (rows d))"
    by (simp add: set_col_def)
  then obtain v r where z: "(v, r) \<in> set (zip vs (rows d))" and r': "r' = r[idx c (cols d) := v]"
    by auto
  from z have "v \<in> set vs" "r \<in> set (rows d)"
    by (rule set_zip_leftD, rule set_zip_rightD)
  with True r' show ?thesis by auto
next
  case False
  with assms have "r' \<in> (\<lambda>(v, r). r @ [v]) ` set (zip vs (rows d))"
    by (simp add: set_col_def)
  then obtain v r where z: "(v, r) \<in> set (zip vs (rows d))" and r': "r' = r @ [v]"
    by auto
  from z have "v \<in> set vs" "r \<in> set (rows d)"
    by (rule set_zip_leftD, rule set_zip_rightD)
  with False r' show ?thesis by auto
qed

lemma set_col_cols: "cols (set_col d c vs) = (if c \<in> set (cols d) then cols d else cols d @ [c])"
  by (simp add: set_col_def)

lemma set_col_wf: "wf_df d \<Longrightarrow> wf_df (set_col d c vs)"
proof -
  assume wf: "wf_df d"
  have "length r' = length (cols (set_col d c vs))" if "r' \<in> set (rows (set_col d c vs))" for r'
  proof -
    from set_col_rows[OF that] obtain v r where r: "r \<in> set (rows d)"
      "r' = (if c \<in> set (cols d) then r[idx c (cols d) := v] else r @ [v])" by blast
    from wf r(1) have "length r = length (cols d)" by (simp add: wf_df_def)
    with r(2) show ?thesis by (simp add: set_col_cols)
  qed
  then show ?thesis by (simp add: wf_df_def)
qed

lemma set_col_col_in:
  assumes "c' \<noteq> c" "col_in c S d"
  shows "col_in c S (set_col d c' vs)"
proof (rule col_inI)
  from assms(2) have wf: "wf_df d" by (rule col_in_wf)
  then show "wf_df (set_col d c' vs)" by (rule set_col_wf)
  assume "c \<in> set (cols (set_col d c' vs))"
  with assms(1) have c: "c \<in> set (cols d)" by (simp add: set_col_cols split: if_splits)
  have ne: "idx c (cols d) \<noteq> idx c' (cols d)" using idx_eq_imp[OF c] assms(1) by blast
  have "cell (cols (set_col d c' vs)) r' c \<in> set (column d c)"
    if "r' \<in> set (rows (set_col d c' vs))" for r'
  proof -
    from set_col_rows[OF that] obtain v r where r: "r \<in> set (rows d)"
      "r' = (if c' \<in> set (cols d) then r[idx c' (cols d) := v] else r @ [v])" by blast
    from wf r(1) have len: "length r = length (cols d)" by (simp add: wf_df_def)
    have lt: "idx c (cols d) < length r" using idx_less[OF c] len by simp
    have "cell (cols (set_col d c' vs)) r' c = cell (cols d) r c"
    proof (cases "c' \<in> set (cols d)")
      case True
      with r(2) ne show ?thesis by (simp add: cell_def set_col_cols)
    next
      case False
      with r(2) lt show ?thesis
        by (simp add: cell_def set_col_cols idx_append_in[OF c] nth_append)
    qed
    with r(1) show ?thesis by (simp add: column_def)
  qed
  then have "set (column (set_col d c' vs) c) \<subseteq> set (column d c)"
    by (auto simp: column_def)
  with col_in_sub[OF assms(2) c] show "set (column (set_col d c' vs) c) \<subseteq> S" by blast
qed

lemma set_const_col_in: "c' \<noteq> c \<Longrightarrow> col_in c S d \<Longrightarrow> col_in c S (set_const d c' v)"
  by (simp add: set_const_def set_col_col_in)

lemma set_col_same_col_in:
  assumes wf: "wf_df d" and vs: "set vs \<subseteq> S"
  shows "col_in c S (set_col d c vs)"
proof (rule col_inI)
  show "wf_df (set_col d c vs)" by (rule set_col_wf[OF wf])
  have "cell (cols (set_col d c vs)) r' c \<in> set vs"
    if "r' \<in> set (rows (set_col d c vs))" for r'
  proof -
    from set_col_rows[OF that] obtain v r where r: "v \<in> set vs" "r \<in> set (rows d)"
      "r' = (if c \<in> set (cols d) then r[idx c (cols d) := v] else r @ [v])" by blast
    from wf r(2) have len: "length r = length (cols d)" by (simp add: wf_df_def)
    have "cell (cols (set_col d c vs)) r' c = v"
    proof (cases "c \<in> set (cols d)")
      case True
      have "idx c (cols d) < length r" using idx_less[OF True] len by simp
      with True r(3) show ?thesis by (simp add: cell_def set_col_cols)
    next
      case False
      have "(r @ [v]) ! length r = v" by simp
      with False r(3) len show ?thesis
        by (simp add: cell_def set_col_cols idx_append_notin)
    qed
    with r(1) show ?thesis by simp
  qed
  with vs show "set (column (set_col d c vs) c) \<subseteq> S"
    by (auto simp: column_def)
qed

lemma rename_col_in:
  assumes "\<And>x. (rename_col m x = c) = (x = c)" "col_in c S d"
  shows "col_in c S (rename d m)"
proof (rule col_inI)
  from assms(2) have "wf_df d" by (rule col_in_wf)
  then show "wf_df (rename d m)" by (simp add: wf_df_def rename_def)
  assume "c \<in> set (cols (rename d m))"
  then obtain x where x: "x \<in> set (cols d)" "rename_col m x = c"
    unfolding rename_def df.sel set_map by auto
  from x(2) have "x = c" by (simp only: assms(1))
  with x(1) have c: "c \<in> set (cols d)" by simp
  have "idx c (map (rename_col m) (cols d)) = idx c (cols d)"
    by (rule idx_map_pres) (rule assms(1))
  then have "column (rename d m) c = column d c"
    by (simp add: column_def rename_def cell_def)
  with col_in_sub[OF assms(2) c] show "set (column (rename d m) c) \<subseteq> S" by simp
qed

lemma merge_Inr_iff:
  "merge L R lon ron h = Inr M \<longleftrightarrow>
     lon \<in> set (cols L) \<and> ron \<in> set (cols R)
     \<and> distinct (map (suffix_x R) (cols L) @ map (suffix_y L) (cols R))
     \<and> M = DF (map (suffix_x R) (cols L) @ map (suffix_y L) (cols R))
              (concat (map (merge_rows h (length (cols R))
                              (\<lambda>l. cell (cols L) l lon) (\<lambda>r. cell (cols R) r ron) (rows R))
                           (rows L)))"
  unfolding merge_def Let_def suffix_x_def[abs_def] suffix_y_def[abs_def]
  by (simp only: if_not_P if_P sum.inject sum.distinct split: if_split) blast

lemma merge_rows_mem:
  assumes "m \<in> set (merge_rows h n lk rk rrows l)"
  shows "(\<exists>r \<in> set rrows. m = l @ r) \<or> (h = LeftJoin \<and> m = l @ replicate n Null)"
proof (cases "filter (\<lambda>r. rk r = lk l) rrows")
  case Nil
  with assms show ?thesis by (cases h) (simp_all add: merge_rows_def)
next
  case (Cons a as)
  with assms obtain r where "r \<in> set (filter (\<lambda>r. rk r = lk l) rrows)" "m = l @ r"
    by (auto simp: merge_rows_def)
  then show ?thesis by auto
qed

lemma merge_rows_of:
  assumes "merge L R lon ron h = Inr M" "m \<in> set (rows M)"
  shows "\<exists>l \<in> set (rows L). (\<exists>r \<in> set (rows R). m = l @ r)
                            \<or> (h = LeftJoin \<and> m = l @ replicate (length (cols R)) Null)"
proof -
  from assms obtain l where "l \<in> set (rows L)"
    "m \<in> set (merge_rows h (length (cols R))
               (\<lambda>l. cell (cols L) l lon) (\<lambda>r. cell (cols R) r ron) (rows R) l)"
    by (auto simp: merge_Inr_iff)
  with merge_rows_mem[OF this(2)] show ?thesis by blast
qed

lemma merge_cols:
  "merge L R lon ron h = Inr M \<Longrightarrow>
     cols M = map (suffix_x R) (cols L) @ map (suffix_y L) (cols R)"
  by (simp add: merge_Inr_iff)

lemma merge_wf:
  assumes m: "merge L R lon ron h = Inr M" and l: "wf_df L" and r: "wf_df R"
  shows "wf_df M"
proof -
  have "length x = length (cols M)" if "x \<in> set (rows M)" for x
  proof -
    from merge_rows_of[OF m that] obtain a where a: "a \<in> set (rows L)"
      "(\<exists>b \<in> set (rows R). x = a @ b) \<or> (h = LeftJoin \<and> x = a @ replicate (length (cols R)) Null)"
      by blast
    from l a(1) have "length a = length (cols L)" by (simp add: wf_df_def)
    with a(2) r show ?thesis by (auto simp: merge_cols[OF m] wf_df_def)
  qed
  then show ?thesis by (simp add: wf_df_def)
qed

lemma plain_suffix_x: "plain c \<Longrightarrow> suffix_x R x = c \<Longrightarrow> x = c \<and> c \<notin> set (cols R)"
  by (auto simp: plain_def suffix_x_def split: if_splits)

lemma plain_suffix_y: "plain c \<Longrightarrow> suffix_y L x = c \<Longrightarrow> x = c \<and> c \<notin> set (cols L)"
  by (auto simp: plain_def suffix_y_def split: if_splits)

lemma merge_col_mem:
  assumes m: "merge L R lon ron h = Inr M" and p: "plain c" and c: "c \<in> set (cols M)"
  shows "(c \<in> set (cols L) \<and> c \<notin> set (cols R)) \<or> (c \<in> set (cols R) \<and> c \<notin> set (cols L))"
proof -
  from c have "c \<in> suffix_x R ` set (cols L) \<or> c \<in> suffix_y L ` set (cols R)"
    by (auto simp: merge_cols[OF m])
  then show ?thesis
  proof
    assume "c \<in> suffix_x R ` set (cols L)"
    then obtain x where "x \<in> set (cols L)" "suffix_x R x = c" by auto
    with plain_suffix_x[OF p this(2)] show ?thesis by simp
  next
    assume "c \<in> suffix_y L ` set (cols R)"
    then obtain x where "x \<in> set (cols R)" "suffix_y L x = c" by auto
    with plain_suffix_y[OF p this(2)] show ?thesis by simp
  qed
qed

lemma merge_col_in:
  assumes m: "merge L R lon ron h = Inr M" and wl: "wf_df L" and wr: "wf_df R"
    and p: "plain c"
    and left: "c \<in> set (cols L) \<Longrightarrow> c \<notin> set (cols R) \<Longrightarrow> set (column L c) \<subseteq> S"
    and right: "c \<in> set (cols R) \<Longrightarrow> c \<notin> set (cols L) \<Longrightarrow>
                  set (column R c) \<subseteq> S \<and> (h = LeftJoin \<longrightarrow> Null \<in> S)"
  shows "col_in c S M"
proof (rule col_inI)
  show "wf_df M" by (rule merge_wf[OF m wl wr])
  assume c: "c \<in> set (cols M)"
  define lc where "lc = map (suffix_x R) (cols L)"
  define rc where "rc = map (suffix_y L) (cols R)"
  have cm: "cols M = lc @ rc" by (simp add: merge_cols[OF m] lc_def rc_def)
  from m have dist: "distinct (lc @ rc)" by (simp add: merge_Inr_iff lc_def rc_def)
  have "cell (cols M) x c \<in> S" if x: "x \<in> set (rows M)" for x
  proof -
    from merge_rows_of[OF m x] obtain a where a: "a \<in> set (rows L)"
      and x': "(\<exists>b \<in> set (rows R). x = a @ b)
               \<or> (h = LeftJoin \<and> x = a @ replicate (length (cols R)) Null)"
      by blast
    from wl a have la: "length a = length lc" by (simp add: wf_df_def lc_def)
    from merge_col_mem[OF m p c] show ?thesis
    proof
      assume cl: "c \<in> set (cols L) \<and> c \<notin> set (cols R)"
      then have "suffix_x R c = c" by (simp add: suffix_x_def)
      then have cin: "c \<in> set lc" using cl by (force simp: lc_def)
      have "idx c lc = idx c (cols L)"
        unfolding lc_def
      proof (rule idx_map_pres)
        fix y assume "y \<in> set (cols L)"
        show "(suffix_x R y = c) = (y = c)"
          using plain_suffix_x[OF p, of R y] \<open>suffix_x R c = c\<close> by auto
      qed
      then have i: "idx c (cols M) = idx c (cols L)" by (simp add: cm idx_append_in[OF cin])
      have "idx c (cols L) < length a" using idx_less[of c "cols L"] cl la by (simp add: lc_def)
      with x' have "x ! idx c (cols L) = a ! idx c (cols L)" by (auto simp: nth_append)
      then have "cell (cols M) x c = cell (cols L) a c" by (simp add: cell_def i)
      with a have "cell (cols M) x c \<in> set (column L c)" by (simp add: column_def)
      with left cl show ?thesis by blast
    next
      assume cr: "c \<in> set (cols R) \<and> c \<notin> set (cols L)"
      then have "suffix_y L c = c" by (simp add: suffix_y_def)
      then have cin: "c \<in> set rc" using cr by (force simp: rc_def)
      with dist have nin: "c \<notin> set lc" by auto
      have "idx c rc = idx c (cols R)"
        unfolding rc_def
      proof (rule idx_map_pres)
        fix y assume "y \<in> set (cols R)"
        show "(suffix_y L y = c) = (y = c)"
          using plain_suffix_y[OF p, of L y] \<open>suffix_y L c = c\<close> by auto
      qed
      then have i: "idx c (cols M) = length a + idx c (cols R)"
        by (simp add: cm idx_append_notin[OF nin] la)
      have lt: "idx c (cols R) < length (cols R)" using idx_less[of c "cols R"] cr by simp
      from right cr have rs: "set (column R c) \<subseteq> S" and nl: "h = LeftJoin \<longrightarrow> Null \<in> S"
        by blast+
      from x' show ?thesis
      proof
        assume "\<exists>b \<in> set (rows R). x = a @ b"
        then obtain b where b: "b \<in> set (rows R)" "x = a @ b" by blast
        then have "cell (cols M) x c = cell (cols R) b c" by (simp add: cell_def i)
        with b(1) have "cell (cols M) x c \<in> set (column R c)" by (simp add: column_def)
        with rs show ?thesis by blast
      next
        assume "h = LeftJoin \<and> x = a @ replicate (length (cols R)) Null"
        with lt have "cell (cols M) x c = Null" by (simp add: cell_def i)
        with nl \<open>h = LeftJoin \<and> x = a @ replicate (length (cols R)) Null\<close>
        show ?thesis by simp
      qed
    qed
  qed
  then show "set (column M c) \<subseteq> S" by (auto simp: column_def)
qed

lemma astype_int64_ints:
  assumes "astype_int64 e vs = Inr vs'" "set vs \<subseteq> ints"
  shows "vs' = vs"
proof -
  from assms(1) have "vs' = map (\<lambda>v. case to_int64 e v of Some n \<Rightarrow> IntV n | None \<Rightarrow> Null) vs"
    by (simp add: astype_int64_def split: if_splits)
  also have "\<dots> = vs"
  proof (rule map_idI)
    fix v assume "v \<in> set vs"
    with assms(2) obtain n where "v = IntV n" by (auto simp: ints_def)
    then show "(case to_int64 e v of Some n \<Rightarrow> IntV n | None \<Rightarrow> Null) = v"
      by (simp add: to_int64_def)
  qed
  finally show ?thesis .
qed

lemma astype_col_col_in:
  assumes a: "astype_col e d c' = Inr d'" and i: "col_in c S d" and s: "c = c' \<Longrightarrow> S \<subseteq> ints"
  shows "col_in c S d'"
proof -
  from a obtain vs' where c': "c' \<in> set (cols d)"
    and av: "astype_int64 e (column d c') = Inr vs'" and d': "d' = set_col d c' vs'"
    by (auto simp: astype_col_def ebind_Inr_iff getcol_def split: if_splits)
  show ?thesis
  proof (cases "c = c'")
    case True
    from col_in_sub[OF i] c' True have sub: "set (column d c') \<subseteq> S" by simp
    with s[OF True] have "set (column d c') \<subseteq> ints" by blast
    from astype_int64_ints[OF av this] have "vs' = column d c'" .
    with sub show ?thesis unfolding d' True
      by (intro set_col_same_col_in col_in_wf[OF i]) simp
  next
    case False
    then have "c' \<noteq> c" by simp
    then show ?thesis unfolding d' by (rule set_col_col_in[OF _ i])
  qed
qed

lemma astype_if_present_col_in:
  assumes "astype_if_present e d c' = Inr d'" "col_in c S d" "c = c' \<Longrightarrow> S \<subseteq> ints"
  shows "col_in c S d'"
proof (cases "c' \<in> set (cols d)")
  case True
  with assms(1) have "astype_col e d c' = Inr d'" by (simp add: astype_if_present_def)
  from astype_col_col_in[OF this assms(2,3)] show ?thesis .
next
  case False
  with assms(1) have "d' = d" by (simp add: astype_if_present_def)
  with assms(2) show ?thesis by simp
qed

lemma select_present_col_in: "select_present d cs = Inr d' \<Longrightarrow> col_in c S d \<Longrightarrow> col_in c S d'"
  unfolding select_present_def by (rule select_col_in)

lemma range1_ints: "set (range1 n) \<subseteq> ints"
  by (auto simp: range1_def ints_def)

lemma insert_col0_col_in:
  assumes i: "insert_col0 d name vs = Inr d'" and wf: "wf_df d" and s: "set vs \<subseteq> S"
  shows "col_in name S d'" and "name \<in> set (cols d')"
proof -
  from i have d': "d' = DF (name # cols d) (map2 (#) vs (rows d))"
    by (simp add: insert_col0_def split: if_splits)
  show "name \<in> set (cols d')" by (simp add: d')
  show "col_in name S d'"
  proof (rule col_inI)
    have r: "\<exists>v r. v \<in> set vs \<and> r \<in> set (rows d) \<and> r' = v # r"
      if "r' \<in> set (rows d')" for r'
    proof -
      from that obtain v r where z: "(v, r) \<in> set (zip vs (rows d))" and r': "r' = v # r"
        by (auto simp: d')
      from z have "v \<in> set vs" "r \<in> set (rows d)"
        by (rule set_zip_leftD, rule set_zip_rightD)
      with r' show ?thesis by blast
    qed
    show "wf_df d'"
      unfolding wf_df_def
    proof
      fix r' assume "r' \<in> set (rows d')"
      from r[OF this] obtain v r0 where "r0 \<in> set (rows d)" "r' = v # r0" by blast
      with wf show "length r' = length (cols d')" by (simp add: wf_df_def d')
    qed
    have "cell (cols d') r' name \<in> set vs" if "r' \<in> set (rows d')" for r'
      using r[OF that] by (auto simp: cell_def d')
    with s show "set (column d' name) \<subseteq> S" by (auto simp: column_def)
  qed
qed

lemma rows_subset_wf:
  "cols d' = cols d \<Longrightarrow> set (rows d') \<subseteq> set (rows d) \<Longrightarrow> wf_df d \<Longrightarrow> wf_df d'"
  by (auto simp: wf_df_def)

lemma drop_duplicates_all_wf: "wf_df d \<Longrightarrow> wf_df (drop_duplicates_all d)"
  by (rule rows_subset_wf[of _ d]) (simp_all add: drop_duplicates_all_def keep_first_subset)

lemma dropna_wf: "wf_df d \<Longrightarrow> wf_df (dropna d)"
  by (rule rows_subset_wf[of _ d]) (auto simp: dropna_def)

lemma set_columns_wf: "set_columns d names = Inr d' \<Longrightarrow> wf_df d \<Longrightarrow> wf_df d'"
  by (auto simp: set_columns_def wf_df_def split: if_splits)

lemma concat_df_wf: "concat_df ds = Inr d \<Longrightarrow> wf_df d"
  by (auto simp: concat_df_def wf_df_def reindex_row_def split: if_splits)

lemma plain_names:
  "plain ''postulante_sk''" "plain ''vacante_sk''" "plain ''competencia_sk''"
  by (rule plainI; simp)+

lemma only_dim_put [simp]: "only_dim name t (put_dim t name d)"
  by (simp add: only_dim_def put_dim_def)

lemma only_dim_warn [simp]: "only_dim name t (warn t w)"
  by (simp add: only_dim_def warn_def)

lemma only_fact_put [simp]: "only_fact name t (put_fact t name d)"
  by (simp add: only_fact_def put_fact_def)

lemma only_fact_warn [simp]: "only_fact name t (warn t w)"
  by (simp add: only_fact_def warn_def)

lemma build_dim_tiempo_only: "build_dim_tiempo e t = Inr t' \<Longrightarrow> only_dim ''dim_tiempo'' t t'"
  by (auto simp: build_dim_tiempo_def Let_def split: if_splits)

lemma build_dim_ubicacion_only: "build_dim_ubicacion t = Inr t' \<Longrightarrow> only_dim ''dim_ubicacion'' t t'"
  by (auto simp: build_dim_ubicacion_def ebind_Inr_iff)

lemma build_dim_empresa_only: "build_dim_empresa t = Inr t' \<Longrightarrow> only_dim ''dim_empresa'' t t'"
  by (auto simp: build_dim_empresa_def ebind_Inr_iff split: option.splits if_splits)

lemma build_dim_carrera_only: "build_dim_carrera t = Inr t' \<Longrightarrow> only_dim ''dim_carrera'' t t'"
  by (auto simp: build_dim_carrera_def ebind_Inr_iff Let_def split: option.splits if_splits)

lemma build_dim_institucion_only:
  "build_dim_institucion t = Inr t' \<Longrightarrow> only_dim ''dim_institucion'' t t'"
  by (auto simp: build_dim_institucion_def ebind_Inr_iff Let_def split: option.splits if_splits)

lemma build_dim_postulante_only:
  "build_dim_postulante t = Inr t' \<Longrightarrow> only_dim ''dim_postulante'' t t'"
  by (auto simp: build_dim_postulante_def ebind_Inr_iff Let_def split: option.splits)

lemma build_dim_vacante_only:
  "build_dim_vacante e t = Inr t' \<Longrightarrow> only_dim ''dim_vacante'' t t'"
  by (auto simp: build_dim_vacante_def ebind_Inr_iff Let_def split: option.splits)

lemma build_dim_competencia_only:
  "build_dim_competencia t = Inr t' \<Longrightarrow> only_dim ''dim_competencia'' t t'"
  by (auto simp: build_dim_competencia_def ebind_Inr_iff Let_def split: option.splits if_splits)

lemma drop_duplicates_wf: "drop_duplicates d ks = Inr d' \<Longrightarrow> wf_df d \<Longrightarrow> wf_df d'"
  by (rule rows_subset_wf[of _ d])
     (auto simp: drop_duplicates_def keep_first_subset split: list.splits
           dest: subsetD[OF keep_first_subset])

lemma dim_ints_put:
  "col_in sk ints d \<Longrightarrow> dim_ints (put_dim t name d) name sk"
  by (simp add: dim_ints_def put_dim_def)

lemma dim_ints_only:
  "only_dim name t t' \<Longrightarrow> name \<noteq> other \<Longrightarrow> dim_ints t other sk \<Longrightarrow> dim_ints t' other sk"
  by (simp add: dim_ints_def only_dim_def)

lemma data_ok_only_dim: "only_dim name t t' \<Longrightarrow> data_ok t \<Longrightarrow> data_ok t'"
  by (simp add: data_ok_def only_dim_def)

lemma data_ok_only_fact: "only_fact name t t' \<Longrightarrow> data_ok t \<Longrightarrow> data_ok t'"
  by (simp add: data_ok_def only_fact_def)

lemma build_dim_postulante_ints:
  assumes b: "build_dim_postulante t = Inr t'"
    and i: "dim_ints t ''dim_postulante'' ''postulante_sk''"
  shows "dim_ints t' ''dim_postulante'' ''postulante_sk''"
proof (cases "datasets t ''postulante''")
  case None
  with b have "t' = warn t (DatasetNoDisponible ''postulante'')"
    by (simp add: build_dim_postulante_def)
  with i show ?thesis by (simp add: dim_ints_def warn_def)
next
  case (Some df_post)
  with b obtain cs d0 d1 d2 where s: "select df_post cs = Inr d0"
    and dd: "drop_duplicates d0 [''ID_POSTULANTE''] = Inr d1"
    and ins: "insert_col0 d1 ''postulante_sk'' (range1 (length (rows d1))) = Inr d2"
    and t': "t' = put_dim t ''dim_postulante'' (rename d2 postulante_renames)"
    by (auto simp: build_dim_postulante_def ebind_Inr_iff Let_def)
  have "wf_df d1" by (rule drop_duplicates_wf[OF dd select_wf[OF s]])
  from insert_col0_col_in(1)[OF ins this range1_ints]
  have "col_in ''postulante_sk'' ints d2" .
  then have "col_in ''postulante_sk'' ints (rename d2 postulante_renames)"
    by (rule rename_col_in[rotated]) (simp add: rename_col_def postulante_renames_def)
  then show ?thesis unfolding t' by (rule dim_ints_put)
qed

lemma build_dim_competencia_ints:
  assumes b: "build_dim_competencia t = Inr t'"
    and i: "dim_ints t ''dim_competencia'' ''competencia_sk''"
  shows "dim_ints t' ''dim_competencia'' ''competencia_sk''"
proof (cases "\<exists>d. datasets t ''competencias'' = Some d \<and> ''NOMBRECOMPETENCIA'' \<in> set (cols d)")
  case False
  with b have "\<exists>w. t' = warn t w"
    by (auto simp: build_dim_competencia_def split: option.splits if_splits)
  with i show ?thesis by (auto simp: dim_ints_def warn_def)
next
  case True
  with b obtain d d0 d1 where s: "select d [''NOMBRECOMPETENCIA''] = Inr d0"
    and ins: "insert_col0 (drop_duplicates_all d0) ''competencia_sk''
                (range1 (length (rows (drop_duplicates_all d0)))) = Inr d1"
    and t': "t' = put_dim t ''dim_competencia''
                    (rename d1 [(''NOMBRECOMPETENCIA'', ''nombre_competencia'')])"
    by (auto simp: build_dim_competencia_def ebind_Inr_iff)
  have "wf_df (drop_duplicates_all d0)" by (rule drop_duplicates_all_wf[OF select_wf[OF s]])
  from insert_col0_col_in(1)[OF ins this range1_ints]
  have "col_in ''competencia_sk'' ints d1" .
  then have "col_in ''competencia_sk'' ints
               (rename d1 [(''NOMBRECOMPETENCIA'', ''nombre_competencia'')])"
    by (rule rename_col_in[rotated]) (simp add: rename_col_def)
  then show ?thesis unfolding t' by (rule dim_ints_put)
qed

lemma build_dim_vacante_ints:
  assumes b: "build_dim_vacante e t = Inr t'"
    and i: "dim_ints t ''dim_vacante'' ''vacante_sk''"
    and ok: "data_ok t"
  shows "dim_ints t' ''dim_vacante'' ''vacante_sk''"
proof (cases "datasets t ''vacantes''")
  case None
  with b have "t' = warn t (DatasetNoDisponible ''vacantes'')"
    by (simp add: build_dim_vacante_def)
  with i show ?thesis by (simp add: dim_ints_def warn_def)
next
  case (Some df_vac)
  define ren where "ren = [(''NOMBREAVISO'', ''nombre_aviso''),
      (''VACANTES'', ''num_vacantes''), (''SECTOR'', ''sector''), (''UBIGEO'', ''ubigeo''),
      (''SINEXPERIENCIA'', ''sin_experiencia''), (''TIEMPOEXPERIENCIA'', ''tiempo_experiencia'')]"
  define f5 where "f5 = (\<lambda>d4. if ''TIEMPOEXPERIENCIA'' \<in> set (cols d4)
                         then map_col d4 ''TIEMPOEXPERIENCIA''
                                (\<lambda>v. fillna_val (IntV 0)
                                       (case to_numeric e v of Some n \<Rightarrow> IntV n | None \<Rightarrow> Null))
                         else d4)"
  define f6 where "f6 = (\<lambda>d5. if ''SINEXPERIENCIA'' \<in> set (cols d5)
                         then map_col d5 ''SINEXPERIENCIA''
                                (\<lambda>v. fillna_val (BoolV False) (map_sinexperiencia v))
                         else d5)"
  from Some b obtain d0 d1 d2 d3 cs d4 where s: "select df_vac [''AVISOID''] = Inr d0"
    and sc: "set_columns (drop_duplicates_all d0) [''id_vacante_original''] = Inr d1"
    and ins: "insert_col0 d1 ''vacante_sk'' (range1 (length (rows d1))) = Inr d2"
    and m: "merge d2 df_vac ''id_vacante_original'' ''AVISOID'' LeftJoin = Inr d3"
    and s4: "select d3 cs = Inr d4"
    and t': "t' = put_dim t ''dim_vacante'' (rename (f6 (f5 d4)) ren)"
    by (auto simp: build_dim_vacante_def ebind_Inr_iff Let_def f5_def f6_def ren_def)
  from ok Some have wv: "wf_df df_vac" by (simp add: data_ok_def)
  have "wf_df d1"
    by (rule set_columns_wf[OF sc drop_duplicates_all_wf[OF select_wf[OF s]]])
  from insert_col0_col_in[OF ins this range1_ints]
  have c2: "col_in ''vacante_sk'' ints d2" and in2: "''vacante_sk'' \<in> set (cols d2)" .
  have c3: "col_in ''vacante_sk'' ints d3"
  proof (rule merge_col_in[OF m col_in_wf[OF c2] wv plain_names(2)])
    show "set (column d2 ''vacante_sk'') \<subseteq> ints" by (rule col_in_sub[OF c2 in2])
  next
    assume "''vacante_sk'' \<notin> set (cols d2)"
    with in2 show "set (column df_vac ''vacante_sk'') \<subseteq> ints \<and> (LeftJoin = LeftJoin \<longrightarrow> Null \<in> ints)"
      by simp
  qed
  have c4: "col_in ''vacante_sk'' ints d4" by (rule select_col_in[OF s4 c3])
  have c5: "col_in ''vacante_sk'' ints (f5 d4)"
    unfolding f5_def using c4 by (simp add: map_col_col_in)
  have c6: "col_in ''vacante_sk'' ints (f6 (f5 d4))"
    unfolding f6_def using c5 by (simp add: map_col_col_in)
  have "col_in ''vacante_sk'' ints (rename (f6 (f5 d4)) ren)"
    by (rule rename_col_in[OF _ c6]) (simp add: rename_col_def ren_def)
  then show ?thesis unfolding t' by (rule dim_ints_put)
qed

lemma build_dim_competencia_link:
  assumes b: "build_dim_competencia t = Inr t'" and i: "comp_link t"
  shows "comp_link t'"
proof (cases "\<exists>d. datasets t ''competencias'' = Some d \<and> ''NOMBRECOMPETENCIA'' \<in> set (cols d)")
  case False
  with b have "\<exists>w. t' = warn t w"
    by (auto simp: build_dim_competencia_def split: option.splits if_splits)
  with i show ?thesis by (auto simp: comp_link_def warn_def)
next
  case True
  with b obtain d d0 d1 where d: "datasets t ''competencias'' = Some d"
    "''NOMBRECOMPETENCIA'' \<in> set (cols d)"
    and s: "select d [''NOMBRECOMPETENCIA''] = Inr d0"
    and ins: "insert_col0 (drop_duplicates_all d0) ''competencia_sk''
                (range1 (length (rows (drop_duplicates_all d0)))) = Inr d1"
    and t': "t' = put_dim t ''dim_competencia''
                    (rename d1 [(''NOMBRECOMPETENCIA'', ''nombre_competencia'')])"
    by (auto simp: build_dim_competencia_def ebind_Inr_iff)
  from ins have "cols d1 = ''competencia_sk'' # cols (drop_duplicates_all d0)"
    by (auto simp: insert_col0_def split: if_splits)
  then have "cols d1 = [''competencia_sk'', ''NOMBRECOMPETENCIA'']"
    by (simp add: drop_duplicates_all_def select_cols[OF s])
  then have "cols (rename d1 [(''NOMBRECOMPETENCIA'', ''nombre_competencia'')])
      = [''competencia_sk'', ''nombre_competencia'']"
    by (simp add: rename_def rename_col_def)
  with d show ?thesis unfolding t' by (simp add: comp_link_def put_dim_def)
qed

lemma comp_link_only:
  "only_dim name t t' \<Longrightarrow> name \<noteq> ''dim_competencia'' \<Longrightarrow> comp_link t \<Longrightarrow> comp_link t'"
  by (simp add: comp_link_def only_dim_def)

lemma dims_ok_other:
  assumes "only_dim name t t'" "dims_ok t"
    "name \<noteq> ''dim_postulante''" "name \<noteq> ''dim_vacante''" "name \<noteq> ''dim_competencia''"
  shows "dims_ok t'"
  using assms unfolding dims_ok_def
  by (auto intro: dim_ints_only[OF assms(1)] comp_link_only[OF assms(1)])

text \<open>The inner join of a source with the key columns of a dimension.\<close>

lemma inner_dim_merge:
  assumes s: "select dm [sk, nk] = Inr ds"
    and m: "merge src ds lon nk Inner = Inr h"
    and wf: "wf_df src" and p: "plain sk"
  shows "col_in sk (set (column dm sk)) h"
proof (rule merge_col_in[OF m wf select_wf[OF s] p])
  have in_ds: "sk \<in> set (cols ds)" by (simp add: select_cols[OF s])
  assume "sk \<notin> set (cols ds)"
  with in_ds show "set (column src sk) \<subseteq> set (column dm sk)" by simp
next
  show "set (column ds sk) \<subseteq> set (column dm sk) \<and> (Inner = LeftJoin \<longrightarrow> Null \<in> set (column dm sk))"
    by (simp add: select_column[OF s])
qed

text \<open>A join with other columns keeps a column of the left frame.\<close>

lemma merge_keeps:
  assumes m: "merge h R lon ron hw = Inr h'" and i: "col_in c S h" and wr: "wf_df R"
    and p: "plain c" and nr: "c \<notin> set (cols R)"
  shows "col_in c S h'"
proof (rule merge_col_in[OF m col_in_wf[OF i] wr p])
  assume "c \<in> set (cols h)"
  then show "set (column h c) \<subseteq> S" by (rule col_in_sub[OF i])
next
  assume "c \<in> set (cols R)"
  with nr show "set (column R c) \<subseteq> S \<and> (hw = LeftJoin \<longrightarrow> Null \<in> S)" by simp
qed

lemma select_merge_keeps:
  assumes e: "ebind (select dm [a, b]) (\<lambda>x. merge h x lon b hw) = Inr h'"
    and i: "col_in c S h" and p: "plain c" and ne: "c \<noteq> a" "c \<noteq> b"
  shows "col_in c S h'"
proof -
  from e obtain x where s: "select dm [a, b] = Inr x" and m: "merge h x lon b hw = Inr h'"
    by (auto simp: ebind_Inr_iff)
  have "c \<notin> set (cols x)" using ne by (simp add: select_cols[OF s])
  from merge_keeps[OF m i select_wf[OF s] p this] show ?thesis .
qed

lemma join_dim_keeps:
  assumes j: "join_dim t h name lon a b = Inr h'" and i: "col_in c S h" and p: "plain c"
    and ne: "c \<noteq> a" "c \<noteq> b"
  shows "col_in c S h'"
proof (cases "\<exists>dm. dimensions t name = Some dm \<and> lon \<in> set (cols h)")
  case False
  with j have "h' = h" by (auto simp: join_dim_def split: option.splits if_splits)
  with i show ?thesis by simp
next
  case True
  with j obtain dm where
    "ebind (select dm [a, b]) (\<lambda>x. merge h x lon b LeftJoin) = Inr h'"
    by (auto simp: join_dim_def)
  from select_merge_keeps[OF this i p ne] show ?thesis .
qed

lemma join_tiempo_keeps:
  assumes j: "join_tiempo e t h cf = Inr (h', cf')" and i: "col_in c S h" and p: "plain c"
    and ne: "c \<noteq> ''FECHACREACION''" "c \<noteq> ''fecha_normalizada''" "c \<noteq> ''fecha_sk''"
      "c \<noteq> ''fecha''" "c \<noteq> ''fecha_publicacion_sk''"
  shows "col_in c S h'"
proof (cases "\<exists>dm. dimensions t ''dim_tiempo'' = Some dm \<and> ''FECHACREACION'' \<in> set (cols h)")
  case False
  with j have "h' = h" by (auto simp: join_tiempo_def split: option.splits if_splits)
  with i show ?thesis by simp
next
  case True
  define h1 where "h1 = map_col h ''FECHACREACION'' (ts_cell e)"
  define h2 where "h2 = set_col h1 ''fecha_normalizada''
                       (map normalize_cell (column h1 ''FECHACREACION''))"
  from True j obtain dm dt h3 pub where s: "select dm [''fecha_sk'', ''fecha''] = Inr dt"
    and m: "merge h2 dt ''fecha_normalizada'' ''fecha'' LeftJoin = Inr h3"
    and h': "h' = set_col h3 ''fecha_publicacion_sk'' pub"
    by (auto simp: join_tiempo_def ebind_Inr_iff Let_def h1_def h2_def)
  have c1: "col_in c S h1" unfolding h1_def using ne(1) i by (intro map_col_col_in) simp_all
  have c2: "col_in c S h2" unfolding h2_def using ne(2) c1 by (intro set_col_col_in) simp_all
  have "c \<notin> set (cols dt)" using ne(3,4) by (simp add: select_cols[OF s])
  from merge_keeps[OF m c2 select_wf[OF s] p this] have c3: "col_in c S h3" .
  show ?thesis unfolding h' using ne(5) c3 by (intro set_col_col_in) simp_all
qed

lemma finish_hechos_vacante_fk:
  assumes f: "finish_hechos_vacante e t h cf = Inr t'"
    and i: "col_in ''vacante_sk'' S h" and s: "S \<subseteq> ints"
  shows "\<exists>fa. t' = put_fact t ''hechos_vacante'' fa \<and> col_in ''vacante_sk'' S fa"
proof -
  define h5 where "h5 = (if ''ACTIVO'' \<in> set (cols h) then rename h [(''ACTIVO'', ''activo'')]
                         else set_const h ''activo'' (BoolV True))"
  define cf5 where "cf5 = (if ''ACTIVO'' \<in> set (cols h) then cf @ [''ACTIVO'']
                           else cf @ [''activo''])"
  from f obtain h6 h7 h8 h9 where s6: "select_present h5 cf5 = Inr h6"
    and a7: "astype_if_present e (dropna (drop_duplicates_all h6)) ''vacante_sk'' = Inr h7"
    and a8: "astype_if_present e h7 ''ubicacion_sk'' = Inr h8"
    and a9: "astype_if_present e h8 ''empresa_sk'' = Inr h9"
    and t': "t' = put_fact t ''hechos_vacante'' h9"
    by (auto simp: finish_hechos_vacante_def ebind_Inr_iff h5_def cf5_def split: if_splits)
  have "col_in ''vacante_sk'' S (rename h [(''ACTIVO'', ''activo'')])"
    by (rule rename_col_in[OF _ i]) (simp add: rename_col_def)
  moreover have "col_in ''vacante_sk'' S (set_const h ''activo'' (BoolV True))"
    by (rule set_const_col_in[OF _ i]) simp
  ultimately have c5: "col_in ''vacante_sk'' S h5" by (simp add: h5_def)
  have c6: "col_in ''vacante_sk'' S h6" by (rule select_present_col_in[OF s6 c5])
  have c6': "col_in ''vacante_sk'' S (dropna (drop_duplicates_all h6))"
    by (intro dropna_col_in drop_duplicates_all_col_in c6)
  have c7: "col_in ''vacante_sk'' S h7" by (rule astype_if_present_col_in[OF a7 c6' s])
  have c8: "col_in ''vacante_sk'' S h8" by (rule astype_if_present_col_in[OF a8 c7]) simp
  have c9: "col_in ''vacante_sk'' S h9" by (rule astype_if_present_col_in[OF a9 c8]) simp
  with t' show ?thesis by blast
qed

lemma fk_built_warn [simp]: "fk_built t (warn t w) fname fk dm sk"
  by (simp add: fk_built_def warn_def)

lemma fk_built_put:
  "dimensions t dm = Some d \<Longrightarrow> col_in fk (set (column d sk)) f \<Longrightarrow>
     fk_built t (put_fact t fname f) fname fk dm sk"
  by (simp add: fk_built_def put_fact_def)

lemma dim_sk_ints:
  assumes "dim_ints t dm sk" "dimensions t dm = Some d" "select d [sk, nk] = Inr dk"
  shows "set (column d sk) \<subseteq> ints"
proof -
  from assms(3) have "sk \<in> set (cols d)" by (simp add: select_Inr_iff)
  with assms(1,2) show ?thesis by (simp add: dim_ints_def col_in_def)
qed

lemma build_hechos_postulante_only:
  "build_hechos_postulante t = Inr t' \<Longrightarrow> only_fact ''hechos_postulante'' t t'"
  by (auto simp: build_hechos_postulante_def ebind_Inr_iff Let_def split: option.splits)

lemma build_hechos_experiencia_fk:
  assumes b: "build_hechos_experiencia e t = Inr t'" and ok: "data_ok t" and dk: "dims_ok t"
  shows "only_fact ''hechos_experiencia'' t t'
    \<and> fk_built t t' ''hechos_experiencia'' ''postulante_sk'' ''dim_postulante'' ''postulante_sk''"
proof (cases "datasets t ''experiencias''")
  case None
  with b have "t' = warn t (DatasetNoDisponible ''experiencias'')"
    by (simp add: build_hechos_experiencia_def)
  then show ?thesis by simp
next
  case (Some df_exp)
  with b obtain dim_post dp h1 h2 h3 h4 where
    d: "dimensions t ''dim_postulante'' = Some dim_post"
    and s: "select dim_post [''postulante_sk'', ''id_postulante_original''] = Inr dp"
    and m: "merge df_exp dp ''ID_POSTULANTE'' ''id_postulante_original'' Inner = Inr h1"
    and s2: "select h1 [''postulante_sk''] = Inr h2"
    and dn: "dropna_subset (drop_duplicates_all h2) [''postulante_sk''] = Inr h3"
    and a: "astype_col e h3 ''postulante_sk'' = Inr h4"
    and t': "t' = put_fact t ''hechos_experiencia'' h4"
    by (auto simp: build_hechos_experiencia_def ebind_Inr_iff get_dim_def split: option.splits)
  let ?S = "set (column dim_post ''postulante_sk'')"
  from dk have "dim_ints t ''dim_postulante'' ''postulante_sk''" by (simp add: dims_ok_def)
  from dim_sk_ints[OF this d s] have si: "?S \<subseteq> ints" .
  from ok Some have "wf_df df_exp" by (simp add: data_ok_def)
  from inner_dim_merge[OF s m this plain_names(1)]
  have "col_in ''postulante_sk'' ?S h1" .
  then have "col_in ''postulante_sk'' ?S h2" by (rule select_col_in[OF s2])
  then have "col_in ''postulante_sk'' ?S (drop_duplicates_all h2)"
    by (rule drop_duplicates_all_col_in)
  then have "col_in ''postulante_sk'' ?S h3" by (rule dropna_subset_col_in[OF dn])
  then have "col_in ''postulante_sk'' ?S h4" by (rule astype_col_col_in[OF a _ si])
  from fk_built_put[OF d this] show ?thesis unfolding t' by simp
qed

lemma build_hechos_formacion_fk:
  assumes b: "build_hechos_formacion t = Inr t'" and ok: "data_ok t"
  shows "only_fact ''hechos_formacion'' t t'
    \<and> fk_built t t' ''hechos_formacion'' ''postulante_sk'' ''dim_postulante'' ''postulante_sk''"
proof (cases "datasets t ''educacion''")
  case None
  with b have "t' = warn t (DatasetNoDisponible ''educacion'')"
    by (simp add: build_hechos_formacion_def)
  then show ?thesis by simp
next
  case (Some df_edu)
  with b obtain dim_post dp h1 h2 h3 cf h4 where
    d: "dimensions t ''dim_postulante'' = Some dim_post"
    and s: "select dim_post [''postulante_sk'', ''id_postulante_original''] = Inr dp"
    and m: "merge df_edu dp ''ID_POSTULANTE'' ''id_postulante_original'' Inner = Inr h1"
    and j2: "join_dim t h1 ''dim_carrera'' ''CARRERA'' ''carrera_sk'' ''nombre_carrera'' = Inr h2"
    and j3: "join_dim t h2 ''dim_institucion'' ''INSTITUCION'' ''institucion_sk''
               ''nombre_institucion'' = Inr h3"
    and s4: "select_present h3 cf = Inr h4"
    and t': "t' = put_fact t ''hechos_formacion'' (drop_duplicates_all h4)"
    by (auto simp: build_hechos_formacion_def ebind_Inr_iff get_dim_def Let_def
             split: option.splits)
  let ?S = "set (column dim_post ''postulante_sk'')"
  from ok Some have "wf_df df_edu" by (simp add: data_ok_def)
  from inner_dim_merge[OF s m this plain_names(1)]
  have "col_in ''postulante_sk'' ?S h1" .
  then have "col_in ''postulante_sk'' ?S h2"
    by (rule join_dim_keeps[OF j2 _ plain_names(1)]) simp_all
  then have "col_in ''postulante_sk'' ?S h3"
    by (rule join_dim_keeps[OF j3 _ plain_names(1)]) simp_all
  then have "col_in ''postulante_sk'' ?S h4" by (rule select_present_col_in[OF s4])
  then have "col_in ''postulante_sk'' ?S (drop_duplicates_all h4)"
    by (rule drop_duplicates_all_col_in)
  from fk_built_put[OF d this] show ?thesis unfolding t' by simp
qed

lemma build_hechos_vacante_fk:
  assumes b: "build_hechos_vacante e t = Inr t'" and ok: "data_ok t" and dk: "dims_ok t"
  shows "only_fact ''hechos_vacante'' t t'
    \<and> fk_built t t' ''hechos_vacante'' ''vacante_sk'' ''dim_vacante'' ''vacante_sk''"
proof (cases "datasets t ''vacantes''")
  case None
  with b have "t' = warn t (DatasetNoDisponible ''vacantes'')"
    by (simp add: build_hechos_vacante_def)
  then show ?thesis by simp
next
  case (Some df_vac)
  with b obtain dim_vac dv h1 h2 h3 cf h4 cf4 where
    d: "dimensions t ''dim_vacante'' = Some dim_vac"
    and s: "select dim_vac [''vacante_sk'', ''id_vacante_original''] = Inr dv"
    and m: "merge df_vac dv ''AVISOID'' ''id_vacante_original'' Inner = Inr h1"
    and j2: "join_dim t h1 ''dim_ubicacion'' ''UBIGEO'' ''ubicacion_sk'' ''ubigeo'' = Inr h2"
    and j3: "join_dim t h2 ''dim_empresa'' ''IDEMPRESA'' ''empresa_sk''
               ''id_empresa_original'' = Inr h3"
    and j4: "join_tiempo e t h3 cf = Inr (h4, cf4)"
    and f: "finish_hechos_vacante e t h4 cf4 = Inr t'"
    by (auto simp: build_hechos_vacante_def ebind_Inr_iff get_dim_def Let_def
             split: option.splits)
  let ?S = "set (column dim_vac ''vacante_sk'')"
  from dk have "dim_ints t ''dim_vacante'' ''vacante_sk''" by (simp add: dims_ok_def)
  from dim_sk_ints[OF this d s] have si: "?S \<subseteq> ints" .
  from ok Some have "wf_df df_vac" by (simp add: data_ok_def)
  from inner_dim_merge[OF s m this plain_names(2)]
  have "col_in ''vacante_sk'' ?S h1" .
  then have "col_in ''vacante_sk'' ?S h2"
    by (rule join_dim_keeps[OF j2 _ plain_names(2)]) simp_all
  then have "col_in ''vacante_sk'' ?S h3"
    by (rule join_dim_keeps[OF j3 _ plain_names(2)]) simp_all
  then have "col_in ''vacante_sk'' ?S h4"
    by (rule join_tiempo_keeps[OF j4 _ plain_names(2)]) simp_all
  from finish_hechos_vacante_fk[OF f this si] obtain fa where
    t': "t' = put_fact t ''hechos_vacante'' fa" and c: "col_in ''vacante_sk'' ?S fa" by blast
  from fk_built_put[OF d c] show ?thesis unfolding t' by simp
qed

lemma fk_built_put_all:
  "(\<And>d. dimensions t dm = Some d \<Longrightarrow> col_in fk (set (column d sk)) f) \<Longrightarrow>
     fk_built t (put_fact t fname f) fname fk dm sk"
  by (simp add: fk_built_def put_fact_def)

lemma join_competencia_cases:
  assumes "join_competencia t h = Inr h'"
  shows "h' = h
       \<or> (\<exists>dc. dimensions t ''dim_competencia'' = Some dc
              \<and> merge h dc ''NOMBRECOMPETENCIA'' ''nombre_competencia'' Inner = Inr h')"
  using assms by (auto simp: join_competencia_def split: option.splits if_splits)

lemma join_competencia_merge:
  "dimensions t ''dim_competencia'' = Some dc \<Longrightarrow> ''NOMBRECOMPETENCIA'' \<in> set (cols h) \<Longrightarrow>
     join_competencia t h = merge h dc ''NOMBRECOMPETENCIA'' ''nombre_competencia'' Inner"
  by (simp add: join_competencia_def)

lemma build_hechos_competencia_requerida_fk:
  assumes b: "build_hechos_competencia_requerida e t = Inr t'"
    and ok: "data_ok t" and dk: "dims_ok t"
  shows "only_fact ''hechos_competencia_requerida'' t t'
    \<and> fk_built t t' ''hechos_competencia_requerida'' ''vacante_sk'' ''dim_vacante'' ''vacante_sk''
    \<and> fk_built t t' ''hechos_competencia_requerida'' ''competencia_sk'' ''dim_competencia''
         ''competencia_sk''"
proof (cases "datasets t ''competencias''")
  case None
  with b have "t' = warn t (DatasetNoDisponible ''competencias'')"
    by (simp add: build_hechos_competencia_requerida_def)
  then show ?thesis by simp
next
  case (Some df_comp)
  with b obtain dim_vac dv h1 h2 h3 h4 h5 where
    d: "dimensions t ''dim_vacante'' = Some dim_vac"
    and s: "select dim_vac [''vacante_sk'', ''id_vacante_original''] = Inr dv"
    and m: "merge df_comp dv ''AVISOID'' ''id_vacante_original'' Inner = Inr h1"
    and j: "join_competencia t h1 = Inr h2"
    and s3: "select h2 [''vacante_sk'', ''competencia_sk''] = Inr h3"
    and a4: "astype_col e (dropna h3) ''vacante_sk'' = Inr h4"
    and a5: "astype_col e h4 ''competencia_sk'' = Inr h5"
    and t': "t' = put_fact t ''hechos_competencia_requerida'' h5"
    by (auto simp: build_hechos_competencia_requerida_def ebind_Inr_iff get_dim_def
             split: option.splits)
  let ?S = "set (column dim_vac ''vacante_sk'')"
  from dk have dv_i: "dim_ints t ''dim_vacante'' ''vacante_sk''"
    and dc_i: "dim_ints t ''dim_competencia'' ''competencia_sk''" and link: "comp_link t"
    by (simp_all add: dims_ok_def)
  from dim_sk_ints[OF dv_i d s] have si: "?S \<subseteq> ints" .
  from ok Some have wc: "wf_df df_comp" by (simp add: data_ok_def)
  from inner_dim_merge[OF s m wc plain_names(2)]
  have c1: "col_in ''vacante_sk'' ?S h1" .
  have c2: "col_in ''vacante_sk'' ?S h2"
    using join_competencia_cases[OF j]
  proof (elim disjE conjE exE)
    assume "h2 = h1"
    with c1 show ?thesis by simp
  next
    fix dc
    assume dc: "dimensions t ''dim_competencia'' = Some dc"
      and m2: "merge h1 dc ''NOMBRECOMPETENCIA'' ''nombre_competencia'' Inner = Inr h2"
    from dc_i dc have "wf_df dc" by (simp add: dim_ints_def col_in_def)
    moreover from link dc have "''vacante_sk'' \<notin> set (cols dc)" by (simp add: comp_link_def)
    ultimately show ?thesis by (rule merge_keeps[OF m2 c1 _ plain_names(2)])
  qed
  then have "col_in ''vacante_sk'' ?S h3" by (rule select_col_in[OF s3])
  then have "col_in ''vacante_sk'' ?S (dropna h3)" by (rule dropna_col_in)
  then have "col_in ''vacante_sk'' ?S h4" by (rule astype_col_col_in[OF a4 _ si])
  then have v5: "col_in ''vacante_sk'' ?S h5" by (rule astype_col_col_in[OF a5]) simp
  have k5: "col_in ''competencia_sk'' (set (column dc ''competencia_sk'')) h5"
    if dc: "dimensions t ''dim_competencia'' = Some dc" for dc
  proof -
    let ?C = "set (column dc ''competencia_sk'')"
    from link dc Some have cdc: "cols dc = [''competencia_sk'', ''nombre_competencia'']"
      and nc: "''NOMBRECOMPETENCIA'' \<in> set (cols df_comp)"
      by (auto simp: comp_link_def)
    from dc_i dc have ci: "col_in ''competencia_sk'' ints dc" by (simp add: dim_ints_def)
    then have wdc: "wf_df dc" by (rule col_in_wf)
    from col_in_sub[OF ci] cdc have Ci: "?C \<subseteq> ints" by simp
    have "suffix_x dv ''NOMBRECOMPETENCIA'' = ''NOMBRECOMPETENCIA''"
      by (simp add: suffix_x_def select_cols[OF s])
    with nc have "''NOMBRECOMPETENCIA'' \<in> suffix_x dv ` set (cols df_comp)" by force
    then have "''NOMBRECOMPETENCIA'' \<in> set (cols h1)" by (simp add: merge_cols[OF m])
    from j[unfolded join_competencia_merge[OF dc this]]
    have m2: "merge h1 dc ''NOMBRECOMPETENCIA'' ''nombre_competencia'' Inner = Inr h2" .
    have "col_in ''competencia_sk'' ?C h2"
    proof (rule merge_col_in[OF m2 col_in_wf[OF c1] wdc plain_names(3)])
      assume "''competencia_sk'' \<notin> set (cols dc)"
      with cdc show "set (column h1 ''competencia_sk'') \<subseteq> ?C" by simp
    next
      show "?C \<subseteq> ?C \<and> (Inner = LeftJoin \<longrightarrow> Null \<in> ?C)" by simp
    qed
    then have "col_in ''competencia_sk'' ?C h3" by (rule select_col_in[OF s3])
    then have "col_in ''competencia_sk'' ?C (dropna h3)" by (rule dropna_col_in)
    then have "col_in ''competencia_sk'' ?C h4" by (rule astype_col_col_in[OF a4]) simp
    then show ?thesis by (rule astype_col_col_in[OF a5 _ Ci])
  qed
  from fk_built_put[OF d v5] fk_built_put_all[of t "''dim_competencia''", OF k5]
  show ?thesis unfolding t' by simp
qed

lemma reconcile_orphans_inv:
  assumes r: "reconcile_orphans e t = Inr t'"
  shows "dimensions t' = dimensions t \<and> facts t' = facts t
    \<and> datasets t' ''competencias'' = datasets t ''competencias''
    \<and> (data_ok t \<longrightarrow> data_ok t')"
proof (cases "datasets t ''competencias''")
  case None
  with r have "t' = warn t DatasetsInsuficientes" by (simp add: reconcile_orphans_def)
  then show ?thesis by (simp add: warn_def data_ok_def)
next
  case comp: (Some df_comp)
  show ?thesis
  proof (cases "datasets t ''vacantes''")
    case None
    with r comp have "t' = warn t DatasetsInsuficientes" by (simp add: reconcile_orphans_def)
    then show ?thesis by (simp add: warn_def data_ok_def)
  next
    case vac: (Some df_vac)
    from r comp vac have c1: "''AVISOID'' \<in> set (cols df_comp)"
      by (auto simp: reconcile_orphans_def getcol_def ebind_def split: if_splits)
    from r comp vac c1 have c2: "''AVISOID'' \<in> set (cols df_vac)"
      by (auto simp: reconcile_orphans_def getcol_def ebind_def split: if_splits)
    note eq = reconcile_orphans_cases[OF comp vac c1 c2, of e]
    define hs where "hs = huerfanos_of (unique_nonnull (column df_comp ''AVISOID''))
                            (unique_nonnull (column df_vac ''AVISOID''))"
    define ph where "ph = vacante_placeholder (today e) (set_iter e hs)"
    define vac' where "vac' = DF (all_cols [df_vac, ph])
        (map (reindex_row (cols df_vac) (all_cols [df_vac, ph])) (rows df_vac) @
         map (reindex_row placeholder_cols (all_cols [df_vac, ph]))
             (map (placeholder_row (today e)) (set_iter e hs)))"
    have "concat_df [df_vac, ph] = Inr vac'"
      by (simp add: concat_df_def vac'_def ph_def vacante_placeholder_def)
    then have wf: "wf_df vac'" by (rule concat_df_wf)
    from r[unfolded eq, folded hs_def, folded ph_def, folded vac'_def]
    have "(\<exists>st. t' = t\<lparr>orphan_stats := st\<rparr>)
        \<or> (\<exists>w st. t' = (warn t w)\<lparr>datasets := (datasets t)(''vacantes'' \<mapsto> vac'),
                                     orphan_stats := st\<rparr>)"
      by (auto split: if_splits)
    then show ?thesis
    proof (elim disjE exE)
      fix st assume "t' = t\<lparr>orphan_stats := st\<rparr>"
      then show ?thesis by (simp add: data_ok_def)
    next
      fix w st
      assume "t' = (warn t w)\<lparr>datasets := (datasets t)(''vacantes'' \<mapsto> vac'),
                                orphan_stats := st\<rparr>"
      with wf show ?thesis by (simp add: warn_def data_ok_def)
    qed
  qed
qed

lemma dims_ok_cong:
  assumes "dimensions t' = dimensions t"
    "datasets t' ''competencias'' = datasets t ''competencias''" "dims_ok t"
  shows "dims_ok t'"
  using assms by (simp add: dims_ok_def dim_ints_def comp_link_def)

lemma dims_ok_only_fact: "only_fact name t t' \<Longrightarrow> dims_ok t \<Longrightarrow> dims_ok t'"
  by (rule dims_ok_cong) (simp_all add: only_fact_def)

lemma dims_ok_postulante:
  assumes b: "build_dim_postulante t = Inr t'" and dk: "dims_ok t"
  shows "dims_ok t'"
proof -
  note o = build_dim_postulante_only[OF b]
  from dk have d: "dim_ints t ''dim_postulante'' ''postulante_sk''"
    "dim_ints t ''dim_vacante'' ''vacante_sk''"
    "dim_ints t ''dim_competencia'' ''competencia_sk''" "comp_link t"
    by (simp_all add: dims_ok_def)
  have "dim_ints t' ''dim_postulante'' ''postulante_sk''"
    by (rule build_dim_postulante_ints[OF b d(1)])
  moreover have "dim_ints t' ''dim_vacante'' ''vacante_sk''"
    by (rule dim_ints_only[OF o _ d(2)]) simp
  moreover have "dim_ints t' ''dim_competencia'' ''competencia_sk''"
    by (rule dim_ints_only[OF o _ d(3)]) simp
  moreover have "comp_link t'" by (rule comp_link_only[OF o _ d(4)]) simp
  ultimately show ?thesis by (simp add: dims_ok_def)
qed

lemma dims_ok_vacante:
  assumes b: "build_dim_vacante e t = Inr t'" and dk: "dims_ok t" and ok: "data_ok t"
  shows "dims_ok t'"
proof -
  note o = build_dim_vacante_only[OF b]
  from dk have d: "dim_ints t ''dim_postulante'' ''postulante_sk''"
    "dim_ints t ''dim_vacante'' ''vacante_sk''"
    "dim_ints t ''dim_competencia'' ''competencia_sk''" "comp_link t"
    by (simp_all add: dims_ok_def)
  have "dim_ints t' ''dim_postulante'' ''postulante_sk''"
    by (rule dim_ints_only[OF o _ d(1)]) simp
  moreover have "dim_ints t' ''dim_vacante'' ''vacante_sk''"
    by (rule build_dim_vacante_ints[OF b d(2) ok])
  moreover have "dim_ints t' ''dim_competencia'' ''competencia_sk''"
    by (rule dim_ints_only[OF o _ d(3)]) simp
  moreover have "comp_link t'" by (rule comp_link_only[OF o _ d(4)]) simp
  ultimately show ?thesis by (simp add: dims_ok_def)
qed

lemma dims_ok_competencia:
  assumes b: "build_dim_competencia t = Inr t'" and dk: "dims_ok t"
  shows "dims_ok t'"
proof -
  note o = build_dim_competencia_only[OF b]
  from dk have d: "dim_ints t ''dim_postulante'' ''postulante_sk''"
    "dim_ints t ''dim_vacante'' ''vacante_sk''"
    "dim_ints t ''dim_competencia'' ''competencia_sk''" "comp_link t"
    by (simp_all add: dims_ok_def)
  have "dim_ints t' ''dim_postulante'' ''postulante_sk''"
    by (rule dim_ints_only[OF o _ d(1)]) simp
  moreover have "dim_ints t' ''dim_vacante'' ''vacante_sk''"
    by (rule dim_ints_only[OF o _ d(2)]) simp
  moreover have "dim_ints t' ''dim_competencia'' ''competencia_sk''"
    by (rule build_dim_competencia_ints[OF b d(3)])
  moreover have "comp_link t'" by (rule build_dim_competencia_link[OF b d(4)])
  ultimately show ?thesis by (simp add: dims_ok_def)
qed

lemma phase_ok_only_dim:
  "only_dim name t t' \<Longrightarrow> dims_ok t' \<Longrightarrow> phase_ok t \<Longrightarrow> phase_ok t'"
  by (simp add: phase_ok_def only_dim_def data_ok_def)

lemma build_all_dimensions_inv:
  assumes b: "build_all_dimensions e t = Inr t'" and p: "phase_ok t"
  shows "phase_ok t'"
proof -
  from b obtain t1 t2 t3 t4 t5 t6 t7 where
    b1: "build_dim_tiempo e t = Inr t1" and b2: "build_dim_ubicacion t1 = Inr t2"
    and b3: "build_dim_postulante t2 = Inr t3" and b4: "build_dim_empresa t3 = Inr t4"
    and b5: "build_dim_vacante e t4 = Inr t5" and b6: "build_dim_competencia t5 = Inr t6"
    and b7: "build_dim_carrera t6 = Inr t7" and b8: "build_dim_institucion t7 = Inr t'"
    by (auto simp: build_all_dimensions_def ebind_Inr_iff)
  have other: "phase_ok y" if "only_dim name x y" "phase_ok x"
    "name \<noteq> ''dim_postulante''" "name \<noteq> ''dim_vacante''" "name \<noteq> ''dim_competencia''"
    for name x y
    using that by (intro phase_ok_only_dim[OF that(1)] dims_ok_other[OF that(1)])
                  (simp_all add: phase_ok_def)
  have p1: "phase_ok t1" by (rule other[OF build_dim_tiempo_only[OF b1] p]) simp_all
  have p2: "phase_ok t2" by (rule other[OF build_dim_ubicacion_only[OF b2] p1]) simp_all
  have p3: "phase_ok t3"
    using p2 by (intro phase_ok_only_dim[OF build_dim_postulante_only[OF b3]]
                       dims_ok_postulante[OF b3]) (simp_all add: phase_ok_def)
  have p4: "phase_ok t4" by (rule other[OF build_dim_empresa_only[OF b4] p3]) simp_all
  have p5: "phase_ok t5"
    using p4 by (intro phase_ok_only_dim[OF build_dim_vacante_only[OF b5]]
                       dims_ok_vacante[OF b5]) (simp_all add: phase_ok_def)
  have p6: "phase_ok t6"
    using p5 by (intro phase_ok_only_dim[OF build_dim_competencia_only[OF b6]]
                       dims_ok_competencia[OF b6]) (simp_all add: phase_ok_def)
  have p7: "phase_ok t7" by (rule other[OF build_dim_carrera_only[OF b7] p6]) simp_all
  show ?thesis by (rule other[OF build_dim_institucion_only[OF b8] p7]) simp_all
qed

lemma reconcile_orphans_phase:
  assumes r: "reconcile_orphans e t = Inr t'" and p: "phase_ok t"
  shows "phase_ok t'"
proof -
  note i = reconcile_orphans_inv[OF r]
  from i p have "data_ok t'" "facts t' = Map.empty" by (simp_all add: phase_ok_def)
  moreover have "dims_ok t'" using i p by (intro dims_ok_cong[of t' t]) (simp_all add: phase_ok_def)
  ultimately show ?thesis by (simp add: phase_ok_def)
qed

lemma fk_holds_from_built:
  assumes "fk_built t0 t1 fname fk dm sk" "facts t0 fname = None"
    "dimensions t2 = dimensions t0" "facts t2 fname = facts t1 fname"
  shows "fk_holds (dimensions t2) (facts t2) fname fk dm sk"
  using assms unfolding fk_holds_def fk_built_def col_in_def by auto

lemma build_all_facts_fk:
  assumes b: "build_all_facts e t = Inr t'" and p: "phase_ok t"
  shows "dimensions t' = dimensions t"
    and "fk_holds (dimensions t') (facts t') ''hechos_formacion'' ''postulante_sk''
           ''dim_postulante'' ''postulante_sk''"
    and "fk_holds (dimensions t') (facts t') ''hechos_experiencia'' ''postulante_sk''
           ''dim_postulante'' ''postulante_sk''"
    and "fk_holds (dimensions t') (facts t') ''hechos_vacante'' ''vacante_sk''
           ''dim_vacante'' ''vacante_sk''"
    and "fk_holds (dimensions t') (facts t') ''hechos_competencia_requerida'' ''vacante_sk''
           ''dim_vacante'' ''vacante_sk''"
    and "fk_holds (dimensions t') (facts t') ''hechos_competencia_requerida''
           ''competencia_sk'' ''dim_competencia'' ''competencia_sk''"
proof -
  from b obtain t1 t2 t3 t4 where
    b1: "build_hechos_postulante t = Inr t1" and b2: "build_hechos_formacion t1 = Inr t2"
    and b3: "build_hechos_experiencia e t2 = Inr t3" and b4: "build_hechos_vacante e t3 = Inr t4"
    and b5: "build_hechos_competencia_requerida e t4 = Inr t'"
    by (auto simp: build_all_facts_def ebind_Inr_iff)
  from p have ok: "data_ok t" and dk: "dims_ok t" and fe: "facts t = Map.empty"
    by (simp_all add: phase_ok_def)
  note o1 = build_hechos_postulante_only[OF b1]
  have ok1: "data_ok t1" and dk1: "dims_ok t1"
    by (rule data_ok_only_fact[OF o1 ok], rule dims_ok_only_fact[OF o1 dk])
  from build_hechos_formacion_fk[OF b2 ok1]
  have o2: "only_fact ''hechos_formacion'' t1 t2"
    and f2: "fk_built t1 t2 ''hechos_formacion'' ''postulante_sk'' ''dim_postulante''
               ''postulante_sk''" by simp_all
  have ok2: "data_ok t2" and dk2: "dims_ok t2"
    by (rule data_ok_only_fact[OF o2 ok1], rule dims_ok_only_fact[OF o2 dk1])
  from build_hechos_experiencia_fk[OF b3 ok2 dk2]
  have o3: "only_fact ''hechos_experiencia'' t2 t3"
    and f3: "fk_built t2 t3 ''hechos_experiencia'' ''postulante_sk'' ''dim_postulante''
               ''postulante_sk''" by simp_all
  have ok3: "data_ok t3" and dk3: "dims_ok t3"
    by (rule data_ok_only_fact[OF o3 ok2], rule dims_ok_only_fact[OF o3 dk2])
  from build_hechos_vacante_fk[OF b4 ok3 dk3]
  have o4: "only_fact ''hechos_vacante'' t3 t4"
    and f4: "fk_built t3 t4 ''hechos_vacante'' ''vacante_sk'' ''dim_vacante'' ''vacante_sk''"
    by simp_all
  have ok4: "data_ok t4" and dk4: "dims_ok t4"
    by (rule data_ok_only_fact[OF o4 ok3], rule dims_ok_only_fact[OF o4 dk3])
  from build_hechos_competencia_requerida_fk[OF b5 ok4 dk4]
  have o5: "only_fact ''hechos_competencia_requerida'' t4 t'"
    and f5: "fk_built t4 t' ''hechos_competencia_requerida'' ''vacante_sk'' ''dim_vacante''
               ''vacante_sk''"
    and f6: "fk_built t4 t' ''hechos_competencia_requerida'' ''competencia_sk''
               ''dim_competencia'' ''competencia_sk''" by simp_all
  from o1 o2 o3 o4 o5 have dims: "dimensions t1 = dimensions t" "dimensions t2 = dimensions t"
    "dimensions t3 = dimensions t" "dimensions t4 = dimensions t" "dimensions t' = dimensions t"
    by (simp_all add: only_fact_def)
  show "dimensions t' = dimensions t" by (rule dims(5))
  show "fk_holds (dimensions t') (facts t') ''hechos_formacion'' ''postulante_sk''
           ''dim_postulante'' ''postulante_sk''"
    by (rule fk_holds_from_built[OF f2]) (use o1 o3 o4 o5 fe dims in \<open>simp_all add: only_fact_def\<close>)
  show "fk_holds (dimensions t') (facts t') ''hechos_experiencia'' ''postulante_sk''
           ''dim_postulante'' ''postulante_sk''"
    by (rule fk_holds_from_built[OF f3]) (use o1 o2 o4 o5 fe dims in \<open>simp_all add: only_fact_def\<close>)
  show "fk_holds (dimensions t') (facts t') ''hechos_vacante'' ''vacante_sk''
           ''dim_vacante'' ''vacante_sk''"
    by (rule fk_holds_from_built[OF f4]) (use o1 o2 o3 o5 fe dims in \<open>simp_all add: only_fact_def\<close>)
  show "fk_holds (dimensions t') (facts t') ''hechos_competencia_requerida'' ''vacante_sk''
           ''dim_vacante'' ''vacante_sk''"
    by (rule fk_holds_from_built[OF f5]) (use o1 o2 o3 o4 fe dims in \<open>simp_all add: only_fact_def\<close>)
  show "fk_holds (dimensions t') (facts t') ''hechos_competencia_requerida''
           ''competencia_sk'' ''dim_competencia'' ''competencia_sk''"
    by (rule fk_holds_from_built[OF f6]) (use o1 o2 o3 o4 fe dims in \<open>simp_all add: only_fact_def\<close>)
qed

text \<open>
  Claim C4. Whenever the transform returns its tables from well-formed datasets, every value
  of a key column that a fact builder resolves by an inner join is a surrogate key of the
  dimension it refers to: \<open>postulante_sk\<close> of the education and experience facts in
  \<open>dim_postulante\<close>, \<open>vacante_sk\<close> of the posting and competency facts in \<open>dim_vacante\<close>,
  \<open>competencia_sk\<close> of the competency facts in \<open>dim_competencia\<close>.
\<close>

theorem C4_inner_join_keys_resolve:
  assumes run: "transform_all e (init_transformer ds) = Some (dims, fs)"
    and wf: "\<forall>k d. ds k = Some d \<longrightarrow> wf_df d"
  shows "\<forall>(fname, fk, dm, sk) \<in> set fk_dependencies.
           \<forall>f d. fs fname = Some f \<longrightarrow> dims dm = Some d \<longrightarrow> fk \<in> set (cols f) \<longrightarrow>
             (\<forall>v \<in> set (column f fk). v \<noteq> Null \<longrightarrow> v \<in> set (column d sk))"
proof -
  from run obtain t' where r: "transform_run e (init_transformer ds) = Inr t'"
    and dims: "dims = dimensions t'" and fs: "fs = facts t'"
    by (auto simp: transform_all_def split: sum.splits)
  from r obtain t1 t2 where b1: "build_all_dimensions e (init_transformer ds) = Inr t1"
    and b2: "reconcile_orphans e t1 = Inr t2" and b3: "build_all_facts e t2 = Inr t'"
    by (auto simp: transform_run_def ebind_Inr_iff)
  have "phase_ok (init_transformer ds)"
    using wf by (simp add: phase_ok_def data_ok_def dims_ok_def dim_ints_def comp_link_def
                           init_transformer_def)
  then have "phase_ok t1" by (rule build_all_dimensions_inv[OF b1])
  then have p2: "phase_ok t2" by (rule reconcile_orphans_phase[OF b2])
  note k = build_all_facts_fk(2-6)[OF b3 p2, folded dims fs, unfolded fk_holds_def]
  show ?thesis
    unfolding fk_dependencies_def
    by (simp only: list.set ball_simps prod.case) (intro conjI k TrueI)
qed

theorem C4_inner_join_keys_witness:
  "\<exists>dims fs. transform_all sample_env (init_transformer sample_datasets) = Some (dims, fs)
     \<and> fs ''hechos_competencia_requerida''
         = Some (DF [''vacante_sk'', ''competencia_sk''] [[IntV 1, IntV 1], [IntV 2, IntV 2]])
     \<and> (\<exists>d. dims ''dim_vacante'' = Some d \<and> IntV 2 \<in> set (column d ''vacante_sk''))"
proof -
  let ?F = "DF [''vacante_sk'', ''competencia_sk''] [[IntV 1, IntV 1], [IntV 2, IntV 2]]"
  have "(case transform_all sample_env (init_transformer sample_datasets) of
           None \<Rightarrow> False
         | Some (dims, fs) \<Rightarrow> fs ''hechos_competencia_requerida'' = Some ?F
                              \<and> (case dims ''dim_vacante'' of None \<Rightarrow> False | Some d \<Rightarrow> True))"
    by code_simp
  then obtain dims fs d where run: "transform_all sample_env (init_transformer sample_datasets)
      = Some (dims, fs)" and f: "fs ''hechos_competencia_requerida'' = Some ?F"
    and d: "dims ''dim_vacante'' = Some d"
    by (auto split: option.splits)
  have wf: "\<forall>k d. sample_datasets k = Some d \<longrightarrow> wf_df d"
    by (auto simp: sample_datasets_def sample_vacantes_def sample_competencias_def wf_df_def
             split: if_splits)
  have mem: "(''hechos_competencia_requerida'', ''vacante_sk'', ''dim_vacante'', ''vacante_sk'')
      \<in> set fk_dependencies" by (simp add: fk_dependencies_def)
  from bspec[OF C4_inner_join_keys_resolve[OF run wf] mem]
  have "\<forall>f d. fs ''hechos_competencia_requerida'' = Some f \<longrightarrow> dims ''dim_vacante'' = Some d \<longrightarrow>
          ''vacante_sk'' \<in> set (cols f) \<longrightarrow>
          (\<forall>v \<in> set (column f ''vacante_sk''). v \<noteq> Null \<longrightarrow> v \<in> set (column d ''vacante_sk''))"
    by (simp only: prod.case)
  with f d have "\<forall>v \<in> set (column ?F ''vacante_sk''). v \<noteq> Null \<longrightarrow> v \<in> set (column d ''vacante_sk'')"
    by simp
  moreover have "IntV 2 \<in> set (column ?F ''vacante_sk'')" by (simp add: column_def cell_def)
  ultimately have "IntV 2 \<in> set (column d ''vacante_sk'')" by blast
  with run f d show ?thesis by blast
qed

end
